theory Spec2Isabelle
  imports Complex_Main "HOL-Library.AList" "HOL-Library.Product_Lexorder" "HOL-Library.Sublist"
begin

section \<open>Values, text and column names\<close>

text \<open>
  Text is a list of bytes: the UTF-8 encoding of the Python string. The column headers
  and the category of the placeholder row are the literals of \<^verbatim>\<open>app.py\<close>, byte for
  byte.
\<close>

definition col_date :: string where
  "col_date = [CHR 0xE6, CHR 0x97, CHR 0xA5, CHR 0xE6, CHR 0x9C, CHR 0x9F]"

definition col_name :: string where
  "col_name = [CHR 0xE5, CHR 0x93, CHR 0x81, CHR 0xE9, CHR 0xA0, CHR 0x85]"

definition col_quantity :: string where
  "col_quantity = [CHR 0xE6, CHR 0x95, CHR 0xB8, CHR 0xE9, CHR 0x87, CHR 0x8F]"

definition col_category :: string where
  "col_category = [CHR 0xE9, CHR 0xA1, CHR 0x9E, CHR 0xE5, CHR 0x88, CHR 0xA5]"

definition col_amount :: string where
  "col_amount = [CHR 0xE9, CHR 0x87, CHR 0x91, CHR 0xE9, CHR 0xA1, CHR 0x8D]"

definition col_owner :: string where
  "col_owner = [CHR 0xE4, CHR 0xBD, CHR 0xBF, CHR 0xE7, CHR 0x94, CHR 0xA8, CHR 0xE8, CHR 0x80, CHR 0x85]"

definition category_other :: string where
  "category_other = [CHR 0xE5, CHR 0x85, CHR 0xB6, CHR 0xE4, CHR 0xBB, CHR 0x96]"

text \<open>
  A cell of the ledger as \<^verbatim>\<open>get_all_records\<close> delivers it: a number, a text, or the
  missing value of pandas. Numbers are exact rationals; the rounding of binary floating
  point is not part of the model.
\<close>

datatype cell = NaN | Num rat | Str string

text \<open>A pandas timestamp: calendar date and the nanoseconds since midnight.\<close>

datatype timestamp = Timestamp (ts_year: int) (ts_month: nat) (ts_day: nat) (ts_nanos: nat)

text \<open>A Python dict in insertion order.\<close>

type_synonym 'a dict = "(string \<times> 'a) list"

type_synonym pydict = "cell dict"

text \<open>
  \<^verbatim>\<open>dict(zip(keys, row))\<close>: a key that occurs twice keeps its first position and its
  last value; \<^verbatim>\<open>zip\<close> stops at the shorter list.
\<close>

definition dict_zip :: "string list \<Rightarrow> 'a list \<Rightarrow> 'a dict" where
  "dict_zip ks vs = fold (\<lambda>kv d. AList.update (fst kv) (snd kv) d) (zip ks vs) []"

text \<open>
  gspread pads every row it reads to the width of the widest one
  (\<^verbatim>\<open>fill_gaps\<close> in \<^verbatim>\<open>get_all_values\<close>), and \<^verbatim>\<open>get_all_records\<close> zips the first row
  with each row below it.
\<close>

definition fill_gaps :: "nat \<Rightarrow> 'a \<Rightarrow> 'a list \<Rightarrow> 'a list" where
  "fill_gaps w blank r = r @ replicate (w - length r) blank"

definition records_of :: "'a \<Rightarrow> string list \<Rightarrow> 'a list list \<Rightarrow> 'a dict list" where
  "records_of blank keys rows =
     (let w = fold (\<lambda>r m. max (length r) m) rows (length keys)
      in map (\<lambda>r. dict_zip (fill_gaps w [] keys) (fill_gaps w blank r)) rows)"

text \<open>
  The ledger worksheet: its first row and the rows below it, the cells as gspread
  returns them. A row may end before the widest one does; \<open>records_of\<close> pads it.
\<close>

record sheet =
  head_row :: "string list"
  data_rows :: "cell list list"

definition get_all_records :: "sheet \<Rightarrow> pydict list" where
  "get_all_records ws = records_of (Str []) (head_row ws) (data_rows ws)"

section \<open>Loading the ledger: coercion, dropna, drop_duplicates\<close>

text \<open>
  The columns of \<^verbatim>\<open>pd.DataFrame(data)\<close> for a list of dicts: the keys in the order of
  their first appearance.
\<close>

fun ordered_union :: "'a list \<Rightarrow> 'a list \<Rightarrow> 'a list" where
  "ordered_union acc [] = acc"
| "ordered_union acc (k # ks) =
     (if k \<in> set acc then ordered_union acc ks else ordered_union (acc @ [k]) ks)"

definition frame_columns :: "pydict list \<Rightarrow> string list" where
  "frame_columns data = ordered_union [] (concat (map (map fst) data))"

definition required_cols :: "string list" where
  "required_cols = [col_date, col_name, col_quantity, col_amount, col_owner]"

text \<open>A value of a frame: the missing value where the dict has no such key.\<close>

definition get_cell :: "pydict \<Rightarrow> string \<Rightarrow> cell" where
  "get_cell d k = (case map_of d k of None \<Rightarrow> NaN | Some v \<Rightarrow> v)"

text \<open>
  \<^verbatim>\<open>pd.to_numeric(errors='coerce')\<close> on one cell. What pandas reads out of a text is the
  parameter \<open>P\<close>. \<^verbatim>\<open>pd.to_datetime(errors='coerce')\<close> is the parameter \<open>D\<close> throughout
  (\<open>None\<close> is NaT).
\<close>

fun to_numeric :: "(string \<Rightarrow> rat option) \<Rightarrow> cell \<Rightarrow> rat option" where
  "to_numeric P NaN = None"
| "to_numeric P (Num x) = Some x"
| "to_numeric P (Str s) = P s"

text \<open>A row of the frame after lines 320 to 322 of \<^verbatim>\<open>load_data\<close>.\<close>

record ledger_row =
  date :: "timestamp option"
  name :: cell
  quantity :: "rat option"
  amount :: "rat option"
  owner :: cell
  others :: pydict

definition coerce ::
  "(string \<Rightarrow> rat option) \<Rightarrow> (cell \<Rightarrow> timestamp option) \<Rightarrow> pydict \<Rightarrow> ledger_row" where
  "coerce P D d =
     \<lparr> date = D (get_cell d col_date),
       name = get_cell d col_name,
       quantity = to_numeric P (get_cell d col_quantity),
       amount = to_numeric P (get_cell d col_amount),
       owner = get_cell d col_owner,
       others = filter (\<lambda>kv. fst kv \<notin> set required_cols) d \<rparr>"

text \<open>\<^verbatim>\<open>df.dropna(subset=required_cols)\<close>.\<close>

definition notna :: "ledger_row \<Rightarrow> bool" where
  "notna r \<longleftrightarrow>
     date r \<noteq> None \<and> name r \<noteq> NaN \<and> quantity r \<noteq> None \<and> amount r \<noteq> None \<and> owner r \<noteq> NaN"

definition dropna :: "ledger_row list \<Rightarrow> ledger_row list" where
  "dropna df = filter notna df"

text \<open>\<^verbatim>\<open>df.drop_duplicates(subset=required_cols, keep='first')\<close>.\<close>

type_synonym dup_key = "timestamp option \<times> cell \<times> rat option \<times> rat option \<times> cell"

definition subset_key :: "ledger_row \<Rightarrow> dup_key" where
  "subset_key r = (date r, name r, quantity r, amount r, owner r)"

fun keep_first :: "dup_key list \<Rightarrow> ledger_row list \<Rightarrow> ledger_row list" where
  "keep_first seen [] = []"
| "keep_first seen (r # rs) =
     (if subset_key r \<in> set seen then keep_first seen rs
      else r # keep_first (subset_key r # seen) rs)"

definition drop_duplicates :: "ledger_row list \<Rightarrow> ledger_row list" where
  "drop_duplicates df = keep_first [] df"

text \<open>Lines 323 and 324 together: the read-time filter.\<close>

definition dedup :: "ledger_row list \<Rightarrow> ledger_row list" where
  "dedup df = drop_duplicates (dropna df)"

text \<open>
  The spreadsheet: the Users worksheet (a grid of texts, first row the header) and the
  ledger worksheet, each absent when the spreadsheet has no such tab.
\<close>

record spreadsheet =
  users_tab :: "string list list option"
  daily_tab :: "sheet option"

text \<open>
  \<^verbatim>\<open>load_data\<close>; the argument is what \<^verbatim>\<open>get_google_sheet\<close> returned (\<open>None\<close> when the
  connection failed).
\<close>

definition load_data ::
  "(string \<Rightarrow> rat option) \<Rightarrow> (cell \<Rightarrow> timestamp option) \<Rightarrow> spreadsheet option
     \<Rightarrow> ledger_row list \<times> int" where
  "load_data P D conn =
     (case conn of
        None \<Rightarrow> ([], 0)
      | Some sh \<Rightarrow>
          (case daily_tab sh of
             None \<Rightarrow> ([], 0)
           | Some ws \<Rightarrow>
               (let data = get_all_records ws in
                if data = [] then ([], 0)
                else if \<not> set required_cols \<subseteq> set (frame_columns data) then ([], 0)
                else
                  (let original_rows = int (length data);
                       df = drop_duplicates (dropna (map (coerce P D) data));
                       deduplicated_rows = original_rows - int (length df)
                   in (df, deduplicated_rows)))))"

section \<open>The dashboard: owner scope and aggregates\<close>

text \<open>Line 335 of \<^verbatim>\<open>page_dashboard\<close>: \<^verbatim>\<open>df_all[df_all[owner] == username].copy()\<close>.\<close>

definition scope_to_owner :: "string \<Rightarrow> ledger_row list \<Rightarrow> ledger_row list" where
  "scope_to_owner username df_all = filter (\<lambda>r. owner r = Str username) df_all"

text \<open>
  The month label of a row, \<^verbatim>\<open>dt.to_period('M').astype(str)\<close>: year and month, or
  \<open>None\<close> for the label of NaT.
\<close>

definition month_label :: "ledger_row \<Rightarrow> (int \<times> nat) option" where
  "month_label r = (case date r of None \<Rightarrow> None | Some t \<Rightarrow> Some (ts_year t, ts_month t))"

text \<open>\<^verbatim>\<open>Series.sum()\<close> skips missing values.\<close>

definition amount_sum :: "ledger_row list \<Rightarrow> rat" where
  "amount_sum df = sum_list (map (\<lambda>r. case amount r of None \<Rightarrow> 0 | Some a \<Rightarrow> a) df)"

definition total_expense :: "ledger_row list \<Rightarrow> rat" where
  "total_expense df = amount_sum df"

text \<open>
  The labels are texts \<^verbatim>\<open>YYYY-MM\<close> and \<^verbatim>\<open>groupby\<close> sorts them: months in calendar
  order, the label of NaT after all of them.
\<close>

definition label_rank :: "(int \<times> nat) option \<Rightarrow> nat \<times> int \<times> nat" where
  "label_rank m = (case m of None \<Rightarrow> (1, 0, 0) | Some p \<Rightarrow> (0, fst p, snd p))"

definition group_labels :: "ledger_row list \<Rightarrow> (int \<times> nat) option list" where
  "group_labels df = sort_key label_rank (remdups (map month_label df))"

text \<open>Line 355: \<^verbatim>\<open>df.groupby(month)[amount].sum()\<close>, one entry per label.\<close>

definition monthly_total :: "ledger_row list \<Rightarrow> ((int \<times> nat) option \<times> rat) list" where
  "monthly_total df =
     map (\<lambda>m. (m, amount_sum (filter (\<lambda>r. month_label r = m) df))) (group_labels df)"

definition monthly_avg :: "ledger_row list \<Rightarrow> rat" where
  "monthly_avg df =
     (let monthly = monthly_total df
      in if monthly = [] then 0 else sum_list (map snd monthly) / of_nat (length monthly))"

section \<open>Recognition: the table offered for correction\<close>

text \<open>What \<^verbatim>\<open>json.loads\<close> returns; an object is a Python dict, so its keys are distinct.\<close>

datatype json =
  JNull | JBool bool | JNum rat | JStr string | JArr "json list" | JObj "(string \<times> json) list"

text \<open>Python's truth value of such a value.\<close>

fun truthy :: "json \<Rightarrow> bool" where
  "truthy JNull = False"
| "truthy (JBool b) = b"
| "truthy (JNum x) = (x \<noteq> 0)"
| "truthy (JStr s) = (s \<noteq> [])"
| "truthy (JArr xs) = (xs \<noteq> [])"
| "truthy (JObj kvs) = (kvs \<noteq> [])"

fun is_dict :: "json \<Rightarrow> bool" where
  "is_dict (JObj kvs) = True"
| "is_dict j = False"

text \<open>\<^verbatim>\<open>parsed_data.get(key)\<close>, with Python's \<^verbatim>\<open>None\<close> as \<open>JNull\<close>.\<close>

fun json_get :: "json \<Rightarrow> string \<Rightarrow> json" where
  "json_get (JObj kvs) k = (case map_of kvs k of None \<Rightarrow> JNull | Some v \<Rightarrow> v)"
| "json_get j k = JNull"

fun has_key :: "json \<Rightarrow> string \<Rightarrow> bool" where
  "has_key (JObj kvs) k = (k \<in> fst ` set kvs)"
| "has_key j k = False"

text \<open>A row of \<^verbatim>\<open>parsed_df\<close>: the five columns selected on line 268.\<close>

record parsed_row =
  p_date :: cell
  p_name :: cell
  p_quantity :: cell
  p_category :: cell
  p_amount :: cell

datatype py_error = KeyError | ValueError | TypeError

definition placeholder_row :: "string \<Rightarrow> parsed_row" where
  "placeholder_row invoice_date =
     \<lparr> p_date = Str invoice_date, p_name = Str [], p_quantity = Num 1,
       p_category = Str category_other, p_amount = Num 0 \<rparr>"

text \<open>
  Lines 266 to 268: \<^verbatim>\<open>pd.DataFrame(parsed_items)\<close>, the date column set, the five
  columns selected. A text, a number or a truth value is no frame and the constructor
  raises. A list of objects becomes a frame whose columns are their keys, and selecting
  a column that is not among them raises; the date column is there by line 267. Neither
  call is inside a \<^verbatim>\<open>try\<close>. What pandas builds in the remaining cases, and the cells
  it makes of the values, is the parameter \<open>tabulate\<close>.
\<close>

fun json_keys :: "json \<Rightarrow> string list" where
  "json_keys (JObj kvs) = map fst kvs"
| "json_keys j = []"

definition item_columns :: "string list" where
  "item_columns = [col_name, col_quantity, col_category, col_amount]"

fun items_frame ::
  "(json \<Rightarrow> json \<Rightarrow> py_error + parsed_row list) \<Rightarrow> json \<Rightarrow> json
     \<Rightarrow> py_error + parsed_row list" where
  "items_frame tabulate invoice_date (JStr s) = Inl ValueError"
| "items_frame tabulate invoice_date (JNum x) = Inl ValueError"
| "items_frame tabulate invoice_date (JBool b) = Inl ValueError"
| "items_frame tabulate invoice_date (JArr xs) =
     (if list_all is_dict xs \<and> \<not> set item_columns \<subseteq> set (concat (map json_keys xs))
      then Inl KeyError
      else tabulate invoice_date (JArr xs))"
| "items_frame tabulate invoice_date j = tabulate invoice_date j"

text \<open>
  Lines 258 to 268. \<open>parsed_data\<close> is what \<^verbatim>\<open>parse_with_gemini\<close> returned (\<open>None\<close> when
  the call or the JSON parsing failed), \<open>today\<close> is \<^verbatim>\<open>datetime.now().strftime(...)\<close>.
\<close>

definition recognise ::
  "(json \<Rightarrow> json \<Rightarrow> py_error + parsed_row list) \<Rightarrow> string \<Rightarrow> json option
     \<Rightarrow> py_error + parsed_row list" where
  "recognise tabulate today parsed_data =
     (case parsed_data of
        None \<Rightarrow> Inr [placeholder_row today]
      | Some pd \<Rightarrow>
          if \<not> truthy pd \<or> \<not> is_dict pd \<or> \<not> has_key pd ''items''
             \<or> \<not> truthy (json_get pd ''items'')
          then Inr [placeholder_row today]
          else
            (let parsed_items = json_get pd ''items'';
                 invoice_date =
                   (if truthy (json_get pd ''invoice_date'') then json_get pd ''invoice_date''
                    else JStr today)
             in items_frame tabulate invoice_date parsed_items))"

section \<open>The save step\<close>

text \<open>
  A row of the edited table. The amount and quantity columns are numeric (\<open>None\<close> is
  a missing value), the item column holds texts or nothing.
\<close>

record edited_row =
  e_date :: cell
  e_name :: "string option"
  e_quantity :: "rat option"
  e_category :: cell
  e_amount :: "rat option"

text \<open>A row of \<^verbatim>\<open>final_df_to_save\<close>.\<close>

record final_row =
  f_date :: cell
  f_name :: "string option"
  f_quantity :: "int option"
  f_category :: cell
  f_amount :: "int option"
  f_owner :: string

text \<open>\<^verbatim>\<open>astype(int)\<close> on a number: truncation toward zero.\<close>

definition astype_int :: "rat \<Rightarrow> int" where
  "astype_int x = (if 0 \<le> x then \<lfloor>x\<rfloor> else \<lceil>x\<rceil>)"

text \<open>
  Lines 280 to 284. \<^verbatim>\<open>str.strip\<close> is the parameter \<open>strip\<close>; on a missing name
  \<^verbatim>\<open>.str.strip()\<close> gives the missing value, which differs from the empty text.
\<close>

definition final_df_to_save ::
  "(string \<Rightarrow> string) \<Rightarrow> string \<Rightarrow> edited_row list \<Rightarrow> final_row list" where
  "final_df_to_save strip username edited_df =
     (let df1 = filter (\<lambda>r. e_amount r \<noteq> None \<and> e_name r \<noteq> None \<and> e_quantity r \<noteq> None)
                  edited_df;
          df2 = filter (\<lambda>r. case e_name r of None \<Rightarrow> True | Some n \<Rightarrow> strip n \<noteq> []) df1
      in map (\<lambda>r. \<lparr> f_date = e_date r, f_name = e_name r,
                     f_quantity = map_option astype_int (e_quantity r),
                     f_category = e_category r,
                     f_amount = map_option astype_int (e_amount r),
                     f_owner = username \<rparr>) df2)"

definition final_columns :: "string list" where
  "final_columns = [col_date, col_name, col_quantity, col_category, col_amount, col_owner]"

text \<open>\<^verbatim>\<open>final_df_to_save.values.tolist()\<close>, one row.\<close>

definition values_tolist :: "final_row \<Rightarrow> cell list" where
  "values_tolist r =
     [ f_date r,
       (case f_name r of None \<Rightarrow> NaN | Some n \<Rightarrow> Str n),
       (case f_quantity r of None \<Rightarrow> NaN | Some q \<Rightarrow> Num (of_int q)),
       f_category r,
       (case f_amount r of None \<Rightarrow> NaN | Some a \<Rightarrow> Num (of_int a)),
       Str (f_owner r) ]"

datatype save_outcome = TableEmpty | NothingValid | NoConnection | SaveError | Written

text \<open>
  Lines 276 to 301: the button's handler, from the edited table and the connection to the
  new connection and the message shown.
\<close>

definition save_step ::
  "(string \<Rightarrow> string) \<Rightarrow> string \<Rightarrow> edited_row list \<Rightarrow> spreadsheet option
     \<Rightarrow> spreadsheet option \<times> save_outcome" where
  "save_step strip username edited_df conn =
     (if edited_df = [] then (conn, TableEmpty)
      else
        (let final = final_df_to_save strip username edited_df in
         if final = [] then (conn, NothingValid)
         else
           (case conn of
              None \<Rightarrow> (conn, NoConnection)
            | Some sh \<Rightarrow>
                (case daily_tab sh of
                   None \<Rightarrow> (conn, SaveError)
                 | Some worksheet_daily \<Rightarrow>
                     (let header_daily = head_row worksheet_daily in
                      if header_daily = [] \<or> col_owner \<notin> set header_daily
                      then
                        (Some (sh\<lparr>daily_tab :=
                           Some \<lparr> head_row = final_columns,
                                  data_rows = map values_tolist final \<rparr>\<rparr>), Written)
                      else
                        (Some (sh\<lparr>daily_tab :=
                           Some (worksheet_daily\<lparr>data_rows :=
                                   data_rows worksheet_daily @ map values_tolist final\<rparr>)\<rparr>),
                         Written))))))"

section \<open>Users: the worksheet, login and deletion\<close>

text \<open>
  The Users worksheet is a grid of texts whose first row is the header; that gspread
  hands a cell that reads as a number over as a number is not modelled for this sheet.
  \<^verbatim>\<open>get_users_worksheet\<close> returns the worksheet after adding the avatar header, or after
  creating the tab.
\<close>

definition users_header :: "string list" where
  "users_header = [''username'', ''hashed_password'', ''avatar_base64'']"

definition row_values_1 :: "string list list \<Rightarrow> string list" where
  "row_values_1 grid = (case grid of [] \<Rightarrow> [] | h # rest \<Rightarrow> h)"

text \<open>\<^verbatim>\<open>update_cell(1, len(header) + 1, value)\<close>: the cell after the last one of row 1.\<close>

definition append_to_row_1 :: "string \<Rightarrow> string list list \<Rightarrow> string list list" where
  "append_to_row_1 v grid = (case grid of [] \<Rightarrow> [[v]] | h # rest \<Rightarrow> (h @ [v]) # rest)"

definition get_users_worksheet :: "spreadsheet \<Rightarrow> string list list" where
  "get_users_worksheet sh =
     (case users_tab sh of
        Some worksheet \<Rightarrow>
          (let header = row_values_1 worksheet in
           if ''avatar_base64'' \<notin> set header then append_to_row_1 ''avatar_base64'' worksheet
           else worksheet)
      | None \<Rightarrow> [users_header])"

definition users_records :: "string list list \<Rightarrow> string dict list" where
  "users_records grid = (case grid of [] \<Rightarrow> [] | h # rows \<Rightarrow> records_of [] h rows)"

text \<open>\<^verbatim>\<open>str(user.get('username'))\<close>.\<close>

definition py_str :: "string option \<Rightarrow> string" where
  "py_str v = (case v of None \<Rightarrow> ''None'' | Some s \<Rightarrow> s)"

text \<open>
  What \<^verbatim>\<open>check_login\<close> returns: the bare \<^verbatim>\<open>False\<close> without a connection, a pair
  otherwise.
\<close>

datatype login = NoSheet | Login bool "string option"

text \<open>The loop over the users; \<open>lower\<close> is \<^verbatim>\<open>str.lower\<close>.\<close>

fun match_user :: "(string \<Rightarrow> string) \<Rightarrow> string \<Rightarrow> string \<Rightarrow> string dict list \<Rightarrow> login" where
  "match_user lower username hashed [] = Login False None"
| "match_user lower username hashed (user # users) =
     (if lower (py_str (map_of user ''username'')) = lower username
         \<and> map_of user ''hashed_password'' = Some hashed
      then Login True (map_of user ''username'')
      else match_user lower username hashed users)"

text \<open>
  \<^verbatim>\<open>check_login\<close>, with \<^verbatim>\<open>hash_password\<close> (SHA-256 in hexadecimal) as a parameter.
  The connection is returned with the Users tab as \<^verbatim>\<open>get_users_worksheet\<close> left it.
\<close>

definition check_login ::
  "(string \<Rightarrow> string) \<Rightarrow> (string \<Rightarrow> string) \<Rightarrow> string \<Rightarrow> string \<Rightarrow> spreadsheet option
     \<Rightarrow> spreadsheet option \<times> login" where
  "check_login lower hash_password username password conn =
     (case conn of
        None \<Rightarrow> (None, NoSheet)
      | Some sheet \<Rightarrow>
          (let users_ws = get_users_worksheet sheet;
               users = users_records users_ws;
               hashed_password_to_check = hash_password password
           in (Some (sheet\<lparr>users_tab := Some users_ws\<rparr>),
               match_user lower username hashed_password_to_check users)))"

text \<open>The part of \<^verbatim>\<open>st.session_state\<close> that login touches.\<close>

record session =
  logged_in :: bool
  selected_user :: "string option"
  show_signup :: bool
  session_username :: "string option"

datatype form_outcome = NoForm | Crashed | LoggedIn | WrongPassword

text \<open>
  Lines 511 to 527: the password form, submitted. Unpacking the bare \<^verbatim>\<open>False\<close> of
  \<^verbatim>\<open>check_login\<close> raises.
\<close>

definition password_form ::
  "(string \<Rightarrow> string) \<Rightarrow> (string \<Rightarrow> string) \<Rightarrow> string \<Rightarrow> spreadsheet option \<Rightarrow> session
     \<Rightarrow> spreadsheet option \<times> session \<times> form_outcome" where
  "password_form lower hash_password password conn st =
     (case selected_user st of
        None \<Rightarrow> (conn, st, NoForm)
      | Some typed \<Rightarrow>
          if typed = [] \<or> show_signup st then (conn, st, NoForm)
          else
            (case check_login lower hash_password typed password conn of
               (conn', NoSheet) \<Rightarrow> (conn', st, Crashed)
             | (conn', Login login_success correct_username) \<Rightarrow>
                 if login_success
                 then (conn', st\<lparr>logged_in := True, session_username := correct_username,
                                selected_user := None\<rparr>, LoggedIn)
                 else (conn', st, WrongPassword)))"

text \<open>
  Line 556 and the page calls below it: the name every page receives, which
  \<^verbatim>\<open>page_invoice_processing\<close> stamps on rows and \<^verbatim>\<open>page_dashboard\<close> filters by.
\<close>

definition page_username :: "session \<Rightarrow> string option" where
  "page_username st = (if logged_in st then session_username st else None)"

text \<open>
  \<^verbatim>\<open>users_ws.find(query)\<close>: the first cell of the whole worksheet, header included,
  whose value is the query; here the index of its row.
\<close>

fun find_row :: "string \<Rightarrow> string list list \<Rightarrow> nat option" where
  "find_row query [] = None"
| "find_row query (r # rs) =
     (if query \<in> set r then Some 0 else map_option Suc (find_row query rs))"

definition delete_rows :: "nat \<Rightarrow> 'a list \<Rightarrow> 'a list" where
  "delete_rows i grid = take i grid @ drop (Suc i) grid"

datatype delete_outcome = NoDatabase | UserNotFound | LedgerError | Deleted

text \<open>
  \<^verbatim>\<open>delete_user\<close>. Comparing the owner column with the name is false on a number and
  on a missing value.
\<close>

definition delete_user ::
  "string \<Rightarrow> spreadsheet option \<Rightarrow> spreadsheet option \<times> delete_outcome" where
  "delete_user username_to_delete conn =
     (case conn of
        None \<Rightarrow> (None, NoDatabase)
      | Some sheet \<Rightarrow>
          (let users_ws = get_users_worksheet sheet in
           case find_row username_to_delete users_ws of
             None \<Rightarrow> (Some (sheet\<lparr>users_tab := Some users_ws\<rparr>), UserNotFound)
           | Some cell_row \<Rightarrow>
               (let sheet1 = sheet\<lparr>users_tab := Some (delete_rows cell_row users_ws)\<rparr> in
                case daily_tab sheet1 of
                  None \<Rightarrow> (Some sheet1, Deleted)
                | Some data_ws \<Rightarrow>
                    (let all_data = get_all_records data_ws in
                     if all_data = [] then (Some sheet1, Deleted)
                     else
                       (let columns = frame_columns all_data in
                        if col_owner \<notin> set columns then (Some sheet1, LedgerError)
                        else
                          (let df_remaining =
                                 filter (\<lambda>d. get_cell d col_owner \<noteq> Str username_to_delete)
                                   all_data
                           in if df_remaining \<noteq> []
                              then
                                (Some (sheet1\<lparr>daily_tab :=
                                   Some \<lparr> head_row = columns,
                                          data_rows =
                                            map (\<lambda>d. map (get_cell d) columns) df_remaining \<rparr>\<rparr>),
                                 Deleted)
                              else
                                (Some (sheet1\<lparr>daily_tab :=
                                   Some \<lparr> head_row = columns, data_rows = [] \<rparr>\<rparr>),
                                 Deleted)))))))"

section \<open>Instances of the parameters, for the examples\<close>

text \<open>\<^verbatim>\<open>str.strip\<close> and \<^verbatim>\<open>str.lower\<close> on ASCII text.\<close>

definition ascii_space :: "char \<Rightarrow> bool" where
  "ascii_space c \<longleftrightarrow>
     c \<in> set [CHR 0x09, CHR 0x0A, CHR 0x0B, CHR 0x0C, CHR 0x0D,
              CHR 0x1C, CHR 0x1D, CHR 0x1E, CHR 0x1F, CHR 0x20]"

definition ascii_strip :: "string \<Rightarrow> string" where
  "ascii_strip s = rev (dropWhile ascii_space (rev (dropWhile ascii_space s)))"

definition ascii_lower :: "string \<Rightarrow> string" where
  "ascii_lower s =
     map (\<lambda>c. if (65::nat) \<le> of_char c \<and> of_char c \<le> (90::nat)
              then char_of (of_char c + (32::nat)) else c) s"

text \<open>After gspread has turned every numeric text into a number, no text reads as one.\<close>

definition no_number :: "string \<Rightarrow> rat option" where
  "no_number s = None"

text \<open>\<^verbatim>\<open>pd.to_datetime\<close> on the two dates of the examples.\<close>

definition example_to_datetime :: "cell \<Rightarrow> timestamp option" where
  "example_to_datetime c =
     (if c = Str ''2024-03-01'' then Some (Timestamp 2024 3 1 0)
      else if c = Str ''2024-04-15'' then Some (Timestamp 2024 4 15 0)
      else None)"

text \<open>A stand-in for the digest: any function of the password serves.\<close>

definition example_hash :: "string \<Rightarrow> string" where
  "example_hash password = ''#'' @ rev password"

text \<open>A ledger of four rows; the third repeats the key columns of the first.\<close>

definition example_ledger :: sheet where
  "example_ledger =
     \<lparr> head_row = final_columns,
       data_rows =
         [[Str ''2024-03-01'', Str ''Milk'', Num 2, Str ''Food'', Num 80, Str ''amy''],
          [Str ''2024-03-01'', Str ''Bread'', Num 1, Str ''Food'', Num 45, Str ''Amy''],
          [Str ''2024-03-01'', Str ''Milk'', Num 2, Str ''Dairy'', Num 80, Str ''amy''],
          [Str ''2024-04-15'', Str ''Tea'', Num 1, Str ''Food'', Num 30, Str ''amy'']] \<rparr>"

text \<open>A loaded row of the examples, the category among the other columns.\<close>

definition example_row :: "string \<Rightarrow> string \<Rightarrow> rat \<Rightarrow> string \<Rightarrow> rat \<Rightarrow> string \<Rightarrow> ledger_row" where
  "example_row d n q c a u =
     \<lparr> date = example_to_datetime (Str d), name = Str n, quantity = Some q, amount = Some a,
       owner = Str u, others = [(col_category, Str c)] \<rparr>"

text \<open>Two rows that differ in a trailing blank of the item name.\<close>

definition untrimmed_ledger :: sheet where
  "untrimmed_ledger =
     \<lparr> head_row = final_columns,
       data_rows =
         [[Str ''2024-03-01'', Str ''Milk'', Num 2, Str ''Food'', Num 80, Str ''amy''],
          [Str ''2024-03-01'', Str ''Milk '', Num 2, Str ''Food'', Num 80, Str ''amy'']] \<rparr>"

text \<open>
  A valid row and a row whose date is no date. The save step writes the date column as
  the user left it, so such a row can come from the program itself.
\<close>

definition unparsable_date_ledger :: sheet where
  "unparsable_date_ledger =
     \<lparr> head_row = final_columns,
       data_rows =
         [[Str ''2024-03-01'', Str ''Milk'', Num 2, Str ''Food'', Num 80, Str ''amy''],
          [Str ''next week'', Str ''Bread'', Num 1, Str ''Food'', Num 45, Str ''amy'']] \<rparr>"

section \<open>The duplicate relation of the specification\<close>

text \<open>
  Section 4.3 of the specification: two rows are duplicates when their tuples of date,
  name, quantity, amount and owner are equal after normalisation, texts trimmed. This is
  the specification's relation, to be compared with \<open>subset_key\<close>.
\<close>

definition trimmed :: "cell \<Rightarrow> cell" where
  "trimmed c = (case c of Str s \<Rightarrow> Str (ascii_strip s) | _ \<Rightarrow> c)"

definition spec_normalized_tuple :: "ledger_row \<Rightarrow> dup_key" where
  "spec_normalized_tuple r = (date r, trimmed (name r), quantity r, amount r, trimmed (owner r))"

text \<open>Rows of an edited table, and one whose amount was left empty.\<close>

definition example_edit :: "string \<Rightarrow> rat \<Rightarrow> rat \<Rightarrow> edited_row" where
  "example_edit n q a =
     \<lparr> e_date = Str ''2024-03-01'', e_name = Some n, e_quantity = Some q,
       e_category = Str ''Food'', e_amount = Some a \<rparr>"

definition blank_amount_edit :: edited_row where
  "blank_amount_edit =
     \<lparr> e_date = Str ''2024-03-01'', e_name = Some ''Rice'', e_quantity = Some 1,
       e_category = Str ''Food'', e_amount = None \<rparr>"

text \<open>A ledger from before the owner column, and a spreadsheet around a ledger.\<close>

definition legacy_ledger :: sheet where
  "legacy_ledger =
     \<lparr> head_row = [col_date, col_name, col_quantity, col_category, col_amount],
       data_rows = [[Str ''2023-12-31'', Str ''Soap'', Num 1, Str ''Home'', Num 25]] \<rparr>"

definition example_spreadsheet :: "sheet \<Rightarrow> spreadsheet" where
  "example_spreadsheet ws = \<lparr> users_tab = None, daily_tab = Some ws \<rparr>"

text \<open>Two instances of \<open>tabulate\<close>: one always fails, one returns an empty table.\<close>

definition failing_tabulate :: "json \<Rightarrow> json \<Rightarrow> py_error + parsed_row list" where
  "failing_tabulate invoice_date parsed_items = Inl KeyError"

definition empty_tabulate :: "json \<Rightarrow> json \<Rightarrow> py_error + parsed_row list" where
  "empty_tabulate invoice_date parsed_items = Inr []"

text \<open>A Users worksheet of two accounts, and the session at the password form.\<close>

definition example_users :: spreadsheet where
  "example_users =
     \<lparr> users_tab = Some [users_header, [''Amy'', ''#wp'', ''''], [''bob'', ''#dcba'', '''']],
       daily_tab = None \<rparr>"

definition at_password_form :: "string \<Rightarrow> session" where
  "at_password_form typed =
     \<lparr> logged_in = False, selected_user = Some typed, show_signup = False,
       session_username = None \<rparr>"

text \<open>
  A Users worksheet on which an account is named like the first header cell, and a
  ledger with rows of that account and of another one.
\<close>

definition header_named_users :: "string list list" where
  "header_named_users =
     [users_header, [''alice'', ''#1'', []], [''username'', ''#2'', []]]"

definition two_owner_ledger :: sheet where
  "two_owner_ledger =
     \<lparr> head_row = final_columns,
       data_rows =
         [[Str ''2024-03-01'', Str ''Milk'', Num 2, Str ''Food'', Num 80, Str ''username''],
          [Str ''2024-03-01'', Str ''Bread'', Num 1, Str ''Food'', Num 45, Str ''alice'']] \<rparr>"

section \<open>The user name of a row\<close>

text \<open>
  Under the header the program writes, the user name of a row of the Users worksheet is
  its first cell (blank for an empty row).
\<close>

definition first_cell :: "string list \<Rightarrow> string" where
  "first_cell r = (case r of [] \<Rightarrow> [] | c # cs \<Rightarrow> c)"

section \<open>Deduplication\<close>

lemma keep_first_subset: "set (keep_first seen rs) \<subseteq> set rs"
  by (induction rs arbitrary: seen) auto

lemma keep_first_keys_fresh: "r \<in> set (keep_first seen rs) \<Longrightarrow> subset_key r \<notin> set seen"
proof (induction rs arbitrary: seen)
  case Nil
  then show ?case by simp
next
  case (Cons a rs)
  show ?case
  proof (cases "subset_key a \<in> set seen")
    case True
    with Cons.prems have "r \<in> set (keep_first seen rs)" by simp
    then show ?thesis by (rule Cons.IH)
  next
    case False
    with Cons.prems have "r = a \<or> r \<in> set (keep_first (subset_key a # seen) rs)" by simp
    then show ?thesis
    proof
      assume "r = a" with False show ?thesis by simp
    next
      assume "r \<in> set (keep_first (subset_key a # seen) rs)"
      then have "subset_key r \<notin> set (subset_key a # seen)" by (rule Cons.IH)
      then show ?thesis by simp
    qed
  qed
qed

lemma keep_first_keys_distinct: "distinct (map subset_key (keep_first seen rs))"
  by (induction rs arbitrary: seen) (auto dest: keep_first_keys_fresh)

lemma keep_first_fixpoint:
  "distinct (map subset_key xs) \<Longrightarrow> (\<And>x. x \<in> set xs \<Longrightarrow> subset_key x \<notin> set seen)
     \<Longrightarrow> keep_first seen xs = xs"
proof (induction xs arbitrary: seen)
  case Nil
  then show ?case by simp
next
  case (Cons x xs)
  have fresh: "subset_key x \<notin> set seen" using Cons.prems(2) by simp
  have "keep_first (subset_key x # seen) xs = xs"
  proof (rule Cons.IH)
    show "distinct (map subset_key xs)" using Cons.prems(1) by simp
  next
    fix y assume "y \<in> set xs"
    then have "subset_key y \<noteq> subset_key x"
      using Cons.prems(1) by (auto simp: image_iff)
    moreover have "subset_key y \<notin> set seen"
      using \<open>y \<in> set xs\<close> Cons.prems(2) by simp
    ultimately show "subset_key y \<notin> set (subset_key x # seen)" by simp
  qed
  with fresh show ?case by simp
qed

lemma drop_duplicates_idem: "drop_duplicates (drop_duplicates df) = drop_duplicates df"
  unfolding drop_duplicates_def
  by (rule keep_first_fixpoint) (simp_all add: keep_first_keys_distinct)

lemma dropna_drop_duplicates: "dropna (drop_duplicates (dropna df)) = drop_duplicates (dropna df)"
proof -
  have "\<And>r. r \<in> set (drop_duplicates (dropna df)) \<Longrightarrow> notna r"
    using keep_first_subset [of "[]" "dropna df"] by (auto simp: drop_duplicates_def dropna_def)
  then show ?thesis by (simp add: dropna_def)
qed

lemma keep_first_positions:
  "keep_first seen xs =
     map ((!) xs)
       (filter (\<lambda>i. subset_key (xs ! i) \<notin> set seen \<union> set (map subset_key (take i xs)))
          [0..<length xs])"
proof (induction xs arbitrary: seen)
  case Nil
  then show ?case by simp
next
  case (Cons x xs)
  have upt: "[0..<Suc (length xs)] = 0 # map Suc [0..<length xs]"
    by (simp add: upt_conv_Cons map_Suc_upt del: upt_Suc)
  show ?case
  proof (cases "subset_key x \<in> set seen")
    case True
    then have "\<And>k C. (k \<notin> set seen \<and> k \<noteq> subset_key x \<and> C) = (k \<notin> set seen \<and> C)"
      by auto
    with True show ?thesis
      by (simp add: upt Cons.IH filter_map comp_def del: upt_Suc)
  next
    case False
    then show ?thesis
      by (simp add: upt Cons.IH filter_map comp_def conj_commute conj_left_commute del: upt_Suc)
  qed
qed

text \<open>
  Claim C4. The read-time filter of \<^verbatim>\<open>load_data\<close> (\<^verbatim>\<open>dropna\<close> followed by
  \<^verbatim>\<open>drop_duplicates\<close>) is idempotent: applied to its own output it returns that output
  unchanged, for every sequence of rows.
\<close>

theorem dedup_idempotent: "dedup (dedup R) = dedup R"
  by (simp add: dedup_def dropna_drop_duplicates drop_duplicates_idem)

section \<open>Evaluating the examples\<close>

lemmas column_defs =
  col_date_def col_name_def col_quantity_def col_category_def col_amount_def col_owner_def
  required_cols_def final_columns_def

lemmas frame_defs =
  dict_zip_def frame_columns_def coerce_def get_cell_def dropna_def notna_def
  drop_duplicates_def subset_key_def no_number_def example_to_datetime_def

lemmas load_defs = load_data_def get_all_records_def records_of_def fill_gaps_def frame_defs

lemmas strip_defs = ascii_strip_def ascii_space_def

lemma example_records:
  "get_all_records example_ledger =
     [dict_zip final_columns [Str ''2024-03-01'', Str ''Milk'', Num 2, Str ''Food'', Num 80, Str ''amy''],
      dict_zip final_columns [Str ''2024-03-01'', Str ''Bread'', Num 1, Str ''Food'', Num 45, Str ''Amy''],
      dict_zip final_columns [Str ''2024-03-01'', Str ''Milk'', Num 2, Str ''Dairy'', Num 80, Str ''amy''],
      dict_zip final_columns [Str ''2024-04-15'', Str ''Tea'', Num 1, Str ''Food'', Num 30, Str ''amy'']]"
  by (simp add: get_all_records_def records_of_def fill_gaps_def example_ledger_def final_columns_def)

section \<open>What \<^verbatim>\<open>load_data\<close> returns\<close>

lemma load_data_frame:
  assumes "daily_tab sh = Some ws" and "get_all_records ws \<noteq> []"
    and "set required_cols \<subseteq> set (frame_columns (get_all_records ws))"
  shows "load_data P D (Some sh) =
           (drop_duplicates (dropna (map (coerce P D) (get_all_records ws))),
            int (length (get_all_records ws))
              - int (length (drop_duplicates (dropna (map (coerce P D) (get_all_records ws))))))"
  using assms by (simp add: load_data_def Let_def)

text \<open>
  Claim C3, as the code has it. Where \<^verbatim>\<open>load_data\<close> reaches the frame, the rows it
  returns are the valid rows (those that keep all five key columns after coercion), in
  ledger order, at exactly the positions where no earlier valid row has the same key: the
  first occurrence of every key is kept and every later one is dropped. The key is the
  tuple of date, name, quantity, amount and owner after \<^verbatim>\<open>to_datetime\<close> and
  \<^verbatim>\<open>to_numeric\<close>; name and owner enter it as they are stored, untrimmed.
\<close>

theorem load_data_keeps_first_occurrences:
  assumes "daily_tab sh = Some ws" and "get_all_records ws \<noteq> []"
    and "set required_cols \<subseteq> set (frame_columns (get_all_records ws))"
  shows "(let valid = dropna (map (coerce P D) (get_all_records ws))
          in fst (load_data P D (Some sh)) =
               map ((!) valid)
                 (filter (\<lambda>i. subset_key (valid ! i) \<notin> set (map subset_key (take i valid)))
                    [0..<length valid]))
         \<and> subset_key (coerce P D d) =
               (D (get_cell d col_date), get_cell d col_name,
                to_numeric P (get_cell d col_quantity), to_numeric P (get_cell d col_amount),
                get_cell d col_owner)"
proof -
  have "fst (load_data P D (Some sh)) =
          drop_duplicates (dropna (map (coerce P D) (get_all_records ws)))"
    using load_data_frame [OF assms] by simp
  moreover have "\<And>xs. drop_duplicates xs =
      map ((!) xs)
        (filter (\<lambda>i. subset_key (xs ! i) \<notin> set (map subset_key (take i xs))) [0..<length xs])"
    using keep_first_positions [of "[]"] by (simp add: drop_duplicates_def)
  ultimately show ?thesis
    by (simp add: Let_def subset_key_def coerce_def)
qed

theorem load_data_keeps_first_occurrences_witness:
  "daily_tab \<lparr>users_tab = None, daily_tab = Some example_ledger\<rparr> = Some example_ledger
   \<and> get_all_records example_ledger \<noteq> []
   \<and> set required_cols \<subseteq> set (frame_columns (get_all_records example_ledger))
   \<and> fst (load_data no_number example_to_datetime
            (Some \<lparr>users_tab = None, daily_tab = Some example_ledger\<rparr>)) =
       [example_row ''2024-03-01'' ''Milk'' 2 ''Food'' 80 ''amy'',
        example_row ''2024-03-01'' ''Bread'' 1 ''Food'' 45 ''Amy'',
        example_row ''2024-04-15'' ''Tea'' 1 ''Food'' 30 ''amy'']"
proof -
  let ?sh = "\<lparr>users_tab = None, daily_tab = Some example_ledger\<rparr>"
  have a: "daily_tab ?sh = Some example_ledger" by simp
  have b: "get_all_records example_ledger \<noteq> []"
    by (simp add: example_records)
  have c: "set required_cols \<subseteq> set (frame_columns (get_all_records example_ledger))"
    by (simp add: example_records frame_columns_def dict_zip_def column_defs)
  have valid: "dropna (map (coerce no_number example_to_datetime) (get_all_records example_ledger)) =
      [example_row ''2024-03-01'' ''Milk'' 2 ''Food'' 80 ''amy'',
       example_row ''2024-03-01'' ''Bread'' 1 ''Food'' 45 ''Amy'',
       example_row ''2024-03-01'' ''Milk'' 2 ''Dairy'' 80 ''amy'',
       example_row ''2024-04-15'' ''Tea'' 1 ''Food'' 30 ''amy'']"
    by (simp add: example_records frame_defs column_defs example_row_def)
  have up: "[0..<4] = [0, 1, 2, 3]" by (simp add: upt_rec)
  show ?thesis
    using load_data_keeps_first_occurrences [OF a b c, of no_number example_to_datetime "[]"]
    by (simp add: a b c valid Let_def up subset_key_def example_row_def example_to_datetime_def)
qed

text \<open>
  The claim as the specification words it fails: two rows whose names differ in a trailing
  blank are duplicates after trimming, and \<^verbatim>\<open>load_data\<close> keeps both.
\<close>

theorem load_data_no_trimming_counterexample:
  "fst (load_data no_number example_to_datetime
          (Some \<lparr>users_tab = None, daily_tab = Some untrimmed_ledger\<rparr>)) =
     [example_row ''2024-03-01'' ''Milk'' 2 ''Food'' 80 ''amy'',
      example_row ''2024-03-01'' ''Milk '' 2 ''Food'' 80 ''amy'']
   \<and> spec_normalized_tuple (example_row ''2024-03-01'' ''Milk'' 2 ''Food'' 80 ''amy'') =
       spec_normalized_tuple (example_row ''2024-03-01'' ''Milk '' 2 ''Food'' 80 ''amy'')"
  by (simp add: load_defs column_defs untrimmed_ledger_def example_row_def
        spec_normalized_tuple_def trimmed_def strip_defs)

text \<open>
  The reported count is the number of rows \<^verbatim>\<open>dropna\<close> removed plus the number of rows
  \<^verbatim>\<open>drop_duplicates\<close> removed: \<^verbatim>\<open>original_rows\<close> is taken before both.
\<close>

lemma load_data_count_split:
  assumes "daily_tab sh = Some ws" and "get_all_records ws \<noteq> []"
    and "set required_cols \<subseteq> set (frame_columns (get_all_records ws))"
  shows "snd (load_data P D (Some sh)) =
           (int (length (get_all_records ws))
              - int (length (dropna (map (coerce P D) (get_all_records ws)))))
           + (int (length (dropna (map (coerce P D) (get_all_records ws))))
              - int (length (drop_duplicates (dropna (map (coerce P D) (get_all_records ws))))))"
  using load_data_frame [OF assms] by simp

text \<open>Two identical rows of one owner: one row is returned and the count is 1.\<close>

lemma load_data_two_identical_rows:
  "load_data no_number example_to_datetime
     (Some \<lparr>users_tab = None,
            daily_tab = Some
              \<lparr>head_row = final_columns,
               data_rows =
                 [[Str ''2024-03-01'', Str ''Milk'', Num 2, Str ''Food'', Num 80, Str ''amy''],
                  [Str ''2024-03-01'', Str ''Milk'', Num 2, Str ''Food'', Num 80, Str ''amy'']]\<rparr>\<rparr>) =
     ([example_row ''2024-03-01'' ''Milk'' 2 ''Food'' 80 ''amy''], 1)"
  by (simp add: load_defs column_defs example_row_def)

text \<open>
  Claim C6. The count \<^verbatim>\<open>load_data\<close> reports, which the dashboard shows as the number
  of duplicate records filtered, is 1 on a ledger of one valid row and one row whose date
  does not parse, although \<^verbatim>\<open>drop_duplicates\<close> removed nothing there.
\<close>

theorem load_data_counts_invalid_rows_as_duplicates:
  "load_data no_number example_to_datetime
     (Some \<lparr>users_tab = None, daily_tab = Some unparsable_date_ledger\<rparr>) =
     ([example_row ''2024-03-01'' ''Milk'' 2 ''Food'' 80 ''amy''], 1)
   \<and> drop_duplicates
       (dropna (map (coerce no_number example_to_datetime)
                  (get_all_records unparsable_date_ledger))) =
     dropna (map (coerce no_number example_to_datetime) (get_all_records unparsable_date_ledger))"
  by (simp add: load_defs column_defs unparsable_date_ledger_def example_row_def)

section \<open>The owner scope\<close>

lemma count_list_filter: "count_list (filter P xs) x = (if P x then count_list xs x else 0)"
  by (induction xs) auto

text \<open>
  Claim C8. The scope filter of \<^verbatim>\<open>page_dashboard\<close> returns only rows whose owner cell
  is the text of the user name, character for character; it returns every such row of the
  loaded view as often as the view has it, in the order of the view. It is a function of
  the view and the name alone and returns a new list: the view and the store are not
  among its results.
\<close>

theorem scope_to_owner_exact:
  "(\<forall>r \<in> set (scope_to_owner username df_all). owner r = Str username)
   \<and> (\<forall>r. owner r = Str username \<longrightarrow>
          count_list (scope_to_owner username df_all) r = count_list df_all r)
   \<and> subseq (scope_to_owner username df_all) df_all"
  by (auto simp: scope_to_owner_def count_list_filter)

theorem scope_to_owner_exact_witness:
  "scope_to_owner ''amy''
     [example_row ''2024-03-01'' ''Milk'' 2 ''Food'' 80 ''amy'',
      example_row ''2024-03-01'' ''Bread'' 1 ''Food'' 45 ''Amy'',
      example_row ''2024-04-15'' ''Tea'' 1 ''Food'' 30 ''amy''] =
     [example_row ''2024-03-01'' ''Milk'' 2 ''Food'' 80 ''amy'',
      example_row ''2024-04-15'' ''Tea'' 1 ''Food'' 30 ''amy'']
   \<and> count_list
        (scope_to_owner ''amy''
          [example_row ''2024-03-01'' ''Milk'' 2 ''Food'' 80 ''amy'',
           example_row ''2024-03-01'' ''Bread'' 1 ''Food'' 45 ''Amy'',
           example_row ''2024-04-15'' ''Tea'' 1 ''Food'' 30 ''amy''])
        (example_row ''2024-03-01'' ''Bread'' 1 ''Food'' 45 ''Amy'') = 0"
  using scope_to_owner_exact [of "''amy''"
      "[example_row ''2024-03-01'' ''Milk'' 2 ''Food'' 80 ''amy'',
        example_row ''2024-03-01'' ''Bread'' 1 ''Food'' 45 ''Amy'',
        example_row ''2024-04-15'' ''Tea'' 1 ''Food'' 30 ''amy'']"]
  by (simp add: scope_to_owner_def example_row_def)

section \<open>Aggregates\<close>

lemma sum_list_insort_key:
  fixes g :: "'a \<Rightarrow> rat"
  shows "sum_list (map g (insort_key f x xs)) = g x + sum_list (map g xs)"
  by (induction xs) auto

lemma sum_list_sort_key:
  fixes g :: "'a \<Rightarrow> rat"
  shows "sum_list (map g (sort_key f xs)) = sum_list (map g xs)"
  by (induction xs) (simp_all add: sum_list_insort_key)

lemma sum_list_delta:
  fixes c :: rat
  shows "distinct ks \<Longrightarrow> (\<Sum>k\<leftarrow>ks. if a = k then c else 0) = (if a \<in> set ks then c else 0)"
  by (induction ks) auto

lemma group_sums:
  fixes g :: "'a \<Rightarrow> rat"
  assumes "distinct ks"
  shows "lab ` set xs \<subseteq> set ks \<Longrightarrow>
           (\<Sum>k\<leftarrow>ks. \<Sum>x\<leftarrow>filter (\<lambda>x. lab x = k) xs. g x) = (\<Sum>x\<leftarrow>xs. g x)"
proof (induction xs)
  case Nil
  then show ?case by simp
next
  case (Cons x xs)
  have "(\<Sum>k\<leftarrow>ks. \<Sum>y\<leftarrow>filter (\<lambda>y. lab y = k) (x # xs). g y) =
        (\<Sum>k\<leftarrow>ks. (if lab x = k then g x else 0) + (\<Sum>y\<leftarrow>filter (\<lambda>y. lab y = k) xs. g y))"
    by (rule arg_cong [where f = sum_list]) (rule map_cong, auto)
  also have "\<dots> = (\<Sum>k\<leftarrow>ks. if lab x = k then g x else 0)
                  + (\<Sum>k\<leftarrow>ks. \<Sum>y\<leftarrow>filter (\<lambda>y. lab y = k) xs. g y)"
    by (simp add: sum_list_addf)
  also have "(\<Sum>k\<leftarrow>ks. if lab x = k then g x else 0) = g x"
    using assms Cons.prems by (simp add: sum_list_delta)
  also have "(\<Sum>k\<leftarrow>ks. \<Sum>y\<leftarrow>filter (\<lambda>y. lab y = k) xs. g y) = (\<Sum>y\<leftarrow>xs. g y)"
    using Cons.prems by (intro Cons.IH) auto
  finally show ?case by simp
qed

text \<open>
  Claim C9. For rows with a date and an amount (the rows \<^verbatim>\<open>load_data\<close> delivers, none
  excluded), the sums of the monthly grouping add up to the total over all rows.
\<close>

theorem monthly_total_sums_to_total:
  assumes "\<forall>r \<in> set df. date r \<noteq> None \<and> amount r \<noteq> None"
  shows "sum_list (map snd (monthly_total df)) = total_expense df"
proof -
  have "sum_list (map snd (monthly_total df)) =
          (\<Sum>m\<leftarrow>group_labels df. amount_sum (filter (\<lambda>r. month_label r = m) df))"
    by (simp add: monthly_total_def comp_def)
  also have "\<dots> = (\<Sum>m\<leftarrow>remdups (map month_label df).
                      amount_sum (filter (\<lambda>r. month_label r = m) df))"
    by (simp add: group_labels_def sum_list_sort_key)
  also have "\<dots> = amount_sum df"
    unfolding amount_sum_def by (rule group_sums) auto
  finally show ?thesis by (simp add: total_expense_def)
qed

theorem monthly_total_sums_to_total_witness:
  "monthly_total
     [example_row ''2024-03-01'' ''Milk'' 2 ''Food'' 80 ''amy'',
      example_row ''2024-04-15'' ''Tea'' 1 ''Food'' 30 ''amy'',
      example_row ''2024-03-01'' ''Bread'' 1 ''Food'' 45 ''amy''] =
     [(Some (2024, 3), 125), (Some (2024, 4), 30)]
   \<and> total_expense
        [example_row ''2024-03-01'' ''Milk'' 2 ''Food'' 80 ''amy'',
         example_row ''2024-04-15'' ''Tea'' 1 ''Food'' 30 ''amy'',
         example_row ''2024-03-01'' ''Bread'' 1 ''Food'' 45 ''amy''] = 155
   \<and> sum_list (map snd (monthly_total
        [example_row ''2024-03-01'' ''Milk'' 2 ''Food'' 80 ''amy'',
         example_row ''2024-04-15'' ''Tea'' 1 ''Food'' 30 ''amy'',
         example_row ''2024-03-01'' ''Bread'' 1 ''Food'' 45 ''amy''])) = 155"
proof -
  let ?df = "[example_row ''2024-03-01'' ''Milk'' 2 ''Food'' 80 ''amy'',
      example_row ''2024-04-15'' ''Tea'' 1 ''Food'' 30 ''amy'',
      example_row ''2024-03-01'' ''Bread'' 1 ''Food'' 45 ''amy'']"
  have h: "\<forall>r \<in> set ?df. date r \<noteq> None \<and> amount r \<noteq> None"
    by (simp add: example_row_def example_to_datetime_def)
  have m: "monthly_total ?df = [(Some (2024, 3), 125), (Some (2024, 4), 30)]"
    by (simp add: monthly_total_def group_labels_def month_label_def label_rank_def
          amount_sum_def example_row_def example_to_datetime_def)
  have t: "total_expense ?df = 155"
    by (simp add: total_expense_def amount_sum_def example_row_def)
  show ?thesis
    using monthly_total_sums_to_total [OF h] m t by simp
qed

section \<open>Recognition\<close>

text \<open>
  The guard of line 258: when the extraction is absent (\<open>None\<close>), is not a JSON object,
  is an object without the key \<^verbatim>\<open>items\<close>, or has an \<^verbatim>\<open>items\<close> value that holds
  nothing (the empty list, or any value Python takes as false), the table offered for
  correction is exactly one row: today's date, the empty name, quantity 1, the category
  of the source and amount 0.
\<close>

lemma recognise_placeholder:
  assumes "parsed_data = None
     \<or> (\<exists>pd. parsed_data = Some pd \<and> (\<forall>kvs. pd \<noteq> JObj kvs))
     \<or> (\<exists>kvs. parsed_data = Some (JObj kvs) \<and> ''items'' \<notin> fst ` set kvs)
     \<or> (\<exists>kvs v. parsed_data = Some (JObj kvs) \<and> map_of kvs ''items'' = Some v \<and> \<not> truthy v)"
  shows "recognise tabulate today parsed_data =
           Inr [\<lparr> p_date = Str today, p_name = Str [], p_quantity = Num 1,
                   p_category = Str category_other, p_amount = Num 0 \<rparr>]"
proof -
  consider (absent) "parsed_data = None"
    | (no_dict) pd where "parsed_data = Some pd" "\<forall>kvs. pd \<noteq> JObj kvs"
    | (no_items) kvs where "parsed_data = Some (JObj kvs)" "''items'' \<notin> fst ` set kvs"
    | (zero_items) kvs v where "parsed_data = Some (JObj kvs)" "map_of kvs ''items'' = Some v"
        "\<not> truthy v"
    using assms by blast
  then show ?thesis
  proof cases
    case absent
    then show ?thesis by (simp add: recognise_def placeholder_row_def)
  next
    case no_dict
    then have "\<not> is_dict pd" by (cases pd) auto
    with no_dict show ?thesis by (simp add: recognise_def placeholder_row_def)
  next
    case no_items
    then show ?thesis by (simp add: recognise_def placeholder_row_def)
  next
    case zero_items
    then show ?thesis by (simp add: recognise_def placeholder_row_def)
  qed
qed

lemma recognise_placeholder_examples:
  "recognise failing_tabulate ''2024-05-06''
     (Some (JObj [(''invoice_date'', JNull), (''items'', JArr [])])) =
     Inr [\<lparr> p_date = Str ''2024-05-06'', p_name = Str [], p_quantity = Num 1,
             p_category = Str category_other, p_amount = Num 0 \<rparr>]
   \<and> recognise failing_tabulate ''2024-05-06'' None =
     Inr [\<lparr> p_date = Str ''2024-05-06'', p_name = Str [], p_quantity = Num 1,
             p_category = Str category_other, p_amount = Num 0 \<rparr>]
   \<and> recognise failing_tabulate ''2024-05-06'' (Some (JStr ''no receipt'')) =
     Inr [\<lparr> p_date = Str ''2024-05-06'', p_name = Str [], p_quantity = Num 1,
             p_category = Str category_other, p_amount = Num 0 \<rparr>]
   \<and> recognise failing_tabulate ''2024-05-06'' (Some (JObj [(''invoice_date'', JStr ''2024-03-01'')])) =
     Inr [\<lparr> p_date = Str ''2024-05-06'', p_name = Str [], p_quantity = Num 1,
             p_category = Str category_other, p_amount = Num 0 \<rparr>]"
proof -
  have a: "recognise failing_tabulate ''2024-05-06''
     (Some (JObj [(''invoice_date'', JNull), (''items'', JArr [])])) =
     Inr [\<lparr> p_date = Str ''2024-05-06'', p_name = Str [], p_quantity = Num 1,
             p_category = Str category_other, p_amount = Num 0 \<rparr>]"
    by (rule recognise_placeholder) simp
  have b: "recognise failing_tabulate ''2024-05-06'' None =
     Inr [\<lparr> p_date = Str ''2024-05-06'', p_name = Str [], p_quantity = Num 1,
             p_category = Str category_other, p_amount = Num 0 \<rparr>]"
    by (rule recognise_placeholder) simp
  have c: "recognise failing_tabulate ''2024-05-06'' (Some (JStr ''no receipt'')) =
     Inr [\<lparr> p_date = Str ''2024-05-06'', p_name = Str [], p_quantity = Num 1,
             p_category = Str category_other, p_amount = Num 0 \<rparr>]"
    by (rule recognise_placeholder) simp
  have d: "recognise failing_tabulate ''2024-05-06'' (Some (JObj [(''invoice_date'', JStr ''2024-03-01'')])) =
     Inr [\<lparr> p_date = Str ''2024-05-06'', p_name = Str [], p_quantity = Num 1,
             p_category = Str category_other, p_amount = Num 0 \<rparr>]"
    by (rule recognise_placeholder) simp
  from a b c d show ?thesis by simp
qed

text \<open>
  Claim C7. The claim asks for the placeholder row on every malformed extraction, with no
  failure. The code fails on two malformed extractions that pass the guard: items that
  are objects without the four item columns (here with the keys \<^verbatim>\<open>name\<close> and
  \<^verbatim>\<open>amount\<close>) raise at the column selection of line 268, and an \<^verbatim>\<open>items\<close> value
  that is a text raises in the frame constructor of line 266. No placeholder row is
  produced in either case.
\<close>

theorem recognise_fails_on_misshapen_items:
  "recognise tabulate today
     (Some (JObj [(''invoice_date'', JStr ''2024-03-01''),
                  (''items'', JArr [JObj [(''name'', JStr ''Milk''), (''amount'', JNum 80)]])]))
     = Inl KeyError
   \<and> recognise tabulate today (Some (JObj [(''items'', JStr ''none'')])) = Inl ValueError"
  by (simp add: recognise_def item_columns_def col_name_def col_quantity_def col_category_def
        col_amount_def)

theorem recognise_fails_on_misshapen_items_witness:
  "recognise empty_tabulate ''2024-05-06''
     (Some (JObj [(''invoice_date'', JStr ''2024-03-01''),
                  (''items'', JArr [JObj [(''name'', JStr ''Milk''), (''amount'', JNum 80)]])]))
     = Inl KeyError
   \<and> recognise empty_tabulate ''2024-05-06'' (Some (JObj [(''items'', JStr ''none'')]))
     = Inl ValueError
   \<and> recognise empty_tabulate ''2024-05-06'' (Some (JObj [(''items'', JStr ''none'')]))
     \<noteq> Inr [placeholder_row ''2024-05-06'']"
  using recognise_fails_on_misshapen_items [of empty_tabulate "''2024-05-06''"] by simp

section \<open>The rows the save step persists\<close>

lemma astype_int_numeral:
  "astype_int (numeral k) = numeral k" "astype_int 0 = 0" "astype_int 1 = 1"
  "astype_int (- numeral k) = - numeral k"
  by (simp_all add: astype_int_def)

lemma astype_int_halves: "astype_int (3 / 2) = 1" "astype_int (49 / 2) = 24"
  by (simp_all add: astype_int_def floor_eq_iff)

lemmas save_defs =
  save_step_def final_df_to_save_def values_tolist_def astype_int_numeral astype_int_halves
  example_edit_def blank_amount_edit_def

lemma final_df_to_save_iff:
  "r \<in> set (final_df_to_save strip username edited_df) \<longleftrightarrow>
     (\<exists>e \<in> set edited_df. \<exists>n q a.
        e_name e = Some n \<and> strip n \<noteq> [] \<and> e_quantity e = Some q \<and> e_amount e = Some a
        \<and> r = \<lparr> f_date = e_date e, f_name = Some n, f_quantity = Some (astype_int q),
                 f_category = e_category e, f_amount = Some (astype_int a),
                 f_owner = username \<rparr>)"
proof
  assume "r \<in> set (final_df_to_save strip username edited_df)"
  then obtain e where e: "e \<in> set edited_df" "e_amount e \<noteq> None" "e_name e \<noteq> None"
      "e_quantity e \<noteq> None" "case e_name e of None \<Rightarrow> True | Some n \<Rightarrow> strip n \<noteq> []"
    and r: "r = \<lparr> f_date = e_date e, f_name = e_name e,
                   f_quantity = map_option astype_int (e_quantity e),
                   f_category = e_category e,
                   f_amount = map_option astype_int (e_amount e), f_owner = username \<rparr>"
    by (auto simp: final_df_to_save_def)
  from e obtain n q a where "e_name e = Some n" "e_quantity e = Some q" "e_amount e = Some a"
    by auto
  with e r show "\<exists>e \<in> set edited_df. \<exists>n q a.
        e_name e = Some n \<and> strip n \<noteq> [] \<and> e_quantity e = Some q \<and> e_amount e = Some a
        \<and> r = \<lparr> f_date = e_date e, f_name = Some n, f_quantity = Some (astype_int q),
                 f_category = e_category e, f_amount = Some (astype_int a),
                 f_owner = username \<rparr>"
    by (intro bexI [of _ e]) auto
next
  assume "\<exists>e \<in> set edited_df. \<exists>n q a.
        e_name e = Some n \<and> strip n \<noteq> [] \<and> e_quantity e = Some q \<and> e_amount e = Some a
        \<and> r = \<lparr> f_date = e_date e, f_name = Some n, f_quantity = Some (astype_int q),
                 f_category = e_category e, f_amount = Some (astype_int a),
                 f_owner = username \<rparr>"
  then show "r \<in> set (final_df_to_save strip username edited_df)"
    by (force simp: final_df_to_save_def image_iff)
qed

lemma save_step_written:
  assumes "save_step strip username edited_df conn = (conn', Written)"
  shows "\<exists>sh ws. conn = Some sh \<and> daily_tab sh = Some ws
           \<and> final_df_to_save strip username edited_df \<noteq> []
           \<and> conn' = Some (sh\<lparr>daily_tab := Some
               (if head_row ws = [] \<or> col_owner \<notin> set (head_row ws)
                then \<lparr> head_row = final_columns,
                       data_rows = map values_tolist (final_df_to_save strip username edited_df) \<rparr>
                else ws\<lparr>data_rows := data_rows ws
                        @ map values_tolist (final_df_to_save strip username edited_df)\<rparr>)\<rparr>)"
  using assms
  by (auto simp: save_step_def Let_def split: if_splits option.splits)

text \<open>
  Claim C1, as the code has it. Whenever the save step writes, the rows it adds to the
  ledger are exactly the rows made from the edited rows that have a name, a quantity and
  an amount and whose name is not empty after \<^verbatim>\<open>strip\<close>: the name as typed, quantity
  and amount cast to integers, and the user name as owner. They follow the rows the sheet
  keeps (all of them, or none when the sheet is rebuilt). No bound on quantity or amount
  is among the conditions.
\<close>

theorem save_step_rows_validated:
  assumes "save_step strip username edited_df conn = (conn', Written)"
  shows "\<exists>sh ws ws' kept appended.
           conn = Some sh \<and> daily_tab sh = Some ws \<and> conn' = Some (sh\<lparr>daily_tab := Some ws'\<rparr>)
           \<and> data_rows ws' = kept @ appended \<and> (kept = [] \<or> kept = data_rows ws)
           \<and> (\<forall>row. row \<in> set appended \<longleftrightarrow>
                 (\<exists>e \<in> set edited_df. \<exists>n q a.
                    e_name e = Some n \<and> strip n \<noteq> [] \<and> e_quantity e = Some q
                    \<and> e_amount e = Some a
                    \<and> row = [e_date e, Str n, Num (of_int (astype_int q)), e_category e,
                             Num (of_int (astype_int a)), Str username]))"
proof -
  let ?final = "final_df_to_save strip username edited_df"
  let ?new = "map values_tolist ?final"
  from save_step_written [OF assms] obtain sh ws where
    conn: "conn = Some sh" and ws: "daily_tab sh = Some ws" and
    conn': "conn' = Some (sh\<lparr>daily_tab := Some
               (if head_row ws = [] \<or> col_owner \<notin> set (head_row ws)
                then \<lparr> head_row = final_columns, data_rows = ?new \<rparr>
                else ws\<lparr>data_rows := data_rows ws @ ?new\<rparr>)\<rparr>)"
    by blast
  let ?ws' = "if head_row ws = [] \<or> col_owner \<notin> set (head_row ws)
                then \<lparr> head_row = final_columns, data_rows = ?new \<rparr>
                else ws\<lparr>data_rows := data_rows ws @ ?new\<rparr>"
  let ?kept = "if head_row ws = [] \<or> col_owner \<notin> set (head_row ws) then [] else data_rows ws"
  have rows: "data_rows ?ws' = ?kept @ ?new" by simp
  have kept: "?kept = [] \<or> ?kept = data_rows ws" by simp
  have new: "row \<in> set ?new \<longleftrightarrow>
                 (\<exists>e \<in> set edited_df. \<exists>n q a.
                    e_name e = Some n \<and> strip n \<noteq> [] \<and> e_quantity e = Some q
                    \<and> e_amount e = Some a
                    \<and> row = [e_date e, Str n, Num (of_int (astype_int q)), e_category e,
                             Num (of_int (astype_int a)), Str username])" for row
  proof
    assume "row \<in> set ?new"
    then obtain r where "r \<in> set ?final" and "row = values_tolist r" by auto
    then obtain e n q a where "e \<in> set edited_df" "e_name e = Some n" "strip n \<noteq> []"
        "e_quantity e = Some q" "e_amount e = Some a"
        "row = [e_date e, Str n, Num (of_int (astype_int q)), e_category e,
                Num (of_int (astype_int a)), Str username]"
      unfolding final_df_to_save_iff by (auto simp: values_tolist_def)
    then show "\<exists>e \<in> set edited_df. \<exists>n q a.
                    e_name e = Some n \<and> strip n \<noteq> [] \<and> e_quantity e = Some q
                    \<and> e_amount e = Some a
                    \<and> row = [e_date e, Str n, Num (of_int (astype_int q)), e_category e,
                             Num (of_int (astype_int a)), Str username]"
      by blast
  next
    assume "\<exists>e \<in> set edited_df. \<exists>n q a.
                    e_name e = Some n \<and> strip n \<noteq> [] \<and> e_quantity e = Some q
                    \<and> e_amount e = Some a
                    \<and> row = [e_date e, Str n, Num (of_int (astype_int q)), e_category e,
                             Num (of_int (astype_int a)), Str username]"
    then obtain e n q a where e: "e \<in> set edited_df" "e_name e = Some n" "strip n \<noteq> []"
        "e_quantity e = Some q" "e_amount e = Some a"
      and row: "row = [e_date e, Str n, Num (of_int (astype_int q)), e_category e,
                             Num (of_int (astype_int a)), Str username]"
      by blast
    let ?r = "\<lparr> f_date = e_date e, f_name = Some n, f_quantity = Some (astype_int q),
                 f_category = e_category e, f_amount = Some (astype_int a),
                 f_owner = username \<rparr>"
    have "?r \<in> set ?final" unfolding final_df_to_save_iff using e by blast
    moreover have "row = values_tolist ?r" by (simp add: row values_tolist_def)
    ultimately show "row \<in> set ?new" by auto
  qed
  show ?thesis
    using conn ws conn' rows kept new by blast
qed

theorem save_step_rows_validated_witness:
  "save_step ascii_strip ''amy''
     [example_edit ''Milk'' 2 80, blank_amount_edit, example_edit ''  '' 1 10,
      example_edit ''Tofu'' (3/2) (49/2)]
     (Some (example_spreadsheet \<lparr>head_row = final_columns, data_rows = []\<rparr>)) =
     (Some (example_spreadsheet
        \<lparr>head_row = final_columns,
         data_rows =
           [[Str ''2024-03-01'', Str ''Milk'', Num 2, Str ''Food'', Num 80, Str ''amy''],
            [Str ''2024-03-01'', Str ''Tofu'', Num 1, Str ''Food'', Num 24, Str ''amy'']]\<rparr>),
      Written)"
proof -
  have h: "save_step ascii_strip ''amy''
     [example_edit ''Milk'' 2 80, blank_amount_edit, example_edit ''  '' 1 10,
      example_edit ''Tofu'' (3/2) (49/2)]
     (Some (example_spreadsheet \<lparr>head_row = final_columns, data_rows = []\<rparr>)) =
     (Some (example_spreadsheet
        \<lparr>head_row = final_columns,
         data_rows =
           [[Str ''2024-03-01'', Str ''Milk'', Num 2, Str ''Food'', Num 80, Str ''amy''],
            [Str ''2024-03-01'', Str ''Tofu'', Num 1, Str ''Food'', Num 24, Str ''amy'']]\<rparr>),
      Written)"
    by (simp add: save_defs example_spreadsheet_def final_columns_def col_owner_def
          ascii_strip_def ascii_space_def del: not_None_eq)
  from save_step_rows_validated [OF h] h show ?thesis by blast
qed

text \<open>
  The claim as the specification words it fails: a row with amount 0 is persisted, and so
  is a row with quantity 0 and a negative amount.
\<close>

theorem save_step_persists_zero_amount_counterexample:
  "save_step ascii_strip ''amy'' [example_edit ''Milk'' 1 0, example_edit ''Bread'' 0 (-5)]
     (Some (example_spreadsheet \<lparr>head_row = final_columns, data_rows = []\<rparr>)) =
     (Some (example_spreadsheet
        \<lparr>head_row = final_columns,
         data_rows =
           [[Str ''2024-03-01'', Str ''Milk'', Num 1, Str ''Food'', Num 0, Str ''amy''],
            [Str ''2024-03-01'', Str ''Bread'', Num 0, Str ''Food'', Num (-5), Str ''amy'']]\<rparr>),
      Written)"
  by (simp add: save_defs example_spreadsheet_def final_columns_def col_owner_def
        ascii_strip_def ascii_space_def)

section \<open>Appending and bootstrapping\<close>

text \<open>
  Claim C5, as the code has it. When the save step writes to a sheet whose first row is
  not empty and holds the owner column, the sheet keeps its header and all its rows in
  their order, and the new rows follow them. When the first row is empty or lacks the
  owner column, the sheet is cleared and becomes the header of six columns followed by
  the new rows: rows stored before are not kept. The ledger has no column self-healing;
  the one the program has is on the Users worksheet, where \<^verbatim>\<open>get_users_worksheet\<close>
  puts the avatar column after the last header cell when the header lacks it, and leaves
  the header otherwise; the rows below stay as they are.
\<close>

theorem save_step_appends_or_bootstraps:
  assumes "save_step strip username edited_df (Some sh) = (conn', Written)"
    and "daily_tab sh = Some ws"
  shows "(let new = map values_tolist (final_df_to_save strip username edited_df) in
            (head_row ws \<noteq> [] \<and> col_owner \<in> set (head_row ws) \<longrightarrow>
               conn' = Some (sh\<lparr>daily_tab := Some (ws\<lparr>data_rows := data_rows ws @ new\<rparr>)\<rparr>))
          \<and> (head_row ws = [] \<or> col_owner \<notin> set (head_row ws) \<longrightarrow>
               conn' = Some (sh\<lparr>daily_tab :=
                          Some \<lparr> head_row = final_columns, data_rows = new \<rparr>\<rparr>)))
         \<and> (users_tab sh2 = Some (h # rows) \<longrightarrow>
               get_users_worksheet sh2 =
                 (if ''avatar_base64'' \<in> set h then h # rows
                  else (h @ [''avatar_base64'']) # rows))"
proof -
  from save_step_written [OF assms(1)] assms(2)
  have "conn' = Some (sh\<lparr>daily_tab := Some
               (if head_row ws = [] \<or> col_owner \<notin> set (head_row ws)
                then \<lparr> head_row = final_columns,
                       data_rows = map values_tolist (final_df_to_save strip username edited_df) \<rparr>
                else ws\<lparr>data_rows := data_rows ws
                        @ map values_tolist (final_df_to_save strip username edited_df)\<rparr>)\<rparr>)"
    by auto
  then show ?thesis
    by (auto simp: Let_def get_users_worksheet_def row_values_1_def append_to_row_1_def)
qed

theorem save_step_appends_or_bootstraps_witness:
  "save_step ascii_strip ''amy'' [example_edit ''Tea'' 1 30]
     (Some (example_spreadsheet
        \<lparr>head_row = final_columns,
         data_rows = [[Str ''2024-03-01'', Str ''Milk'', Num 2, Str ''Food'', Num 80, Str ''bob'']]\<rparr>)) =
     (Some (example_spreadsheet
        \<lparr>head_row = final_columns,
         data_rows =
           [[Str ''2024-03-01'', Str ''Milk'', Num 2, Str ''Food'', Num 80, Str ''bob''],
            [Str ''2024-03-01'', Str ''Tea'', Num 1, Str ''Food'', Num 30, Str ''amy'']]\<rparr>),
      Written)
   \<and> save_step ascii_strip ''amy'' [example_edit ''Tea'' 1 30]
       (Some (example_spreadsheet legacy_ledger)) =
     (Some (example_spreadsheet
        \<lparr>head_row = final_columns,
         data_rows =
           [[Str ''2024-03-01'', Str ''Tea'', Num 1, Str ''Food'', Num 30, Str ''amy'']]\<rparr>),
      Written)
   \<and> get_users_worksheet
       \<lparr>users_tab = Some [[''username'', ''hashed_password''], [''amy'', ''#wp'']],
        daily_tab = None\<rparr> =
     [[''username'', ''hashed_password'', ''avatar_base64''], [''amy'', ''#wp'']]"
proof -
  let ?ws = "\<lparr>head_row = final_columns,
         data_rows = [[Str ''2024-03-01'', Str ''Milk'', Num 2, Str ''Food'', Num 80, Str ''bob'']]\<rparr>"
  let ?new = "map values_tolist (final_df_to_save ascii_strip ''amy'' [example_edit ''Tea'' 1 30])"
  let ?users = "\<lparr>users_tab = Some [[''username'', ''hashed_password''], [''amy'', ''#wp'']],
        daily_tab = None\<rparr>"
  have new: "?new = [[Str ''2024-03-01'', Str ''Tea'', Num 1, Str ''Food'', Num 30, Str ''amy'']]"
    by (simp add: save_defs ascii_strip_def ascii_space_def del: not_None_eq)
  have a: "save_step ascii_strip ''amy'' [example_edit ''Tea'' 1 30]
             (Some (example_spreadsheet ?ws)) =
           (Some ((example_spreadsheet ?ws)\<lparr>daily_tab :=
              Some (?ws\<lparr>data_rows := data_rows ?ws @ ?new\<rparr>)\<rparr>), Written)"
    by (simp add: save_defs example_spreadsheet_def final_columns_def col_owner_def
          ascii_strip_def ascii_space_def del: not_None_eq)
  have b: "save_step ascii_strip ''amy'' [example_edit ''Tea'' 1 30]
             (Some (example_spreadsheet legacy_ledger)) =
           (Some ((example_spreadsheet legacy_ledger)\<lparr>daily_tab :=
              Some \<lparr>head_row = final_columns, data_rows = ?new\<rparr>\<rparr>), Written)"
    by (simp add: save_defs example_spreadsheet_def legacy_ledger_def final_columns_def
          col_owner_def col_date_def col_name_def col_quantity_def col_category_def
          col_amount_def ascii_strip_def ascii_space_def del: not_None_eq)
  have wa: "daily_tab (example_spreadsheet ?ws) = Some ?ws"
    and wb: "daily_tab (example_spreadsheet legacy_ledger) = Some legacy_ledger"
    by (simp_all add: example_spreadsheet_def)
  have ha: "head_row ?ws \<noteq> [] \<and> col_owner \<in> set (head_row ?ws)"
    by (simp add: final_columns_def)
  have hb: "col_owner \<notin> set (head_row legacy_ledger)"
    by (simp add: legacy_ledger_def col_owner_def col_date_def col_name_def col_quantity_def
          col_category_def col_amount_def)
  have u: "users_tab ?users = Some ([''username'', ''hashed_password''] # [[''amy'', ''#wp'']])"
    by simp
  from save_step_appends_or_bootstraps [OF a wa, of ?users "[''username'', ''hashed_password'']"
      "[[''amy'', ''#wp'']]"] u
  have "get_users_worksheet ?users =
      [[''username'', ''hashed_password'', ''avatar_base64''], [''amy'', ''#wp'']]"
    by simp
  moreover have "save_step ascii_strip ''amy'' [example_edit ''Tea'' 1 30]
       (Some (example_spreadsheet legacy_ledger)) =
     (Some (example_spreadsheet \<lparr>head_row = final_columns, data_rows = ?new\<rparr>), Written)"
    using save_step_appends_or_bootstraps [OF b wb] hb b
    by (simp add: example_spreadsheet_def)
  moreover have "save_step ascii_strip ''amy'' [example_edit ''Tea'' 1 30]
             (Some (example_spreadsheet ?ws)) =
           (Some (example_spreadsheet (?ws\<lparr>data_rows := data_rows ?ws @ ?new\<rparr>)), Written)"
    using a by (simp add: example_spreadsheet_def)
  ultimately show ?thesis by (simp add: new)
qed

text \<open>
  The claim as the specification words it fails: saving to a ledger that has a row but no
  owner column leaves the new row alone in the sheet; the row stored before is gone.
\<close>

theorem save_step_bootstrap_discards_rows_counterexample:
  "data_rows legacy_ledger = [[Str ''2023-12-31'', Str ''Soap'', Num 1, Str ''Home'', Num 25]]
   \<and> save_step ascii_strip ''amy'' [example_edit ''Tea'' 1 30]
       (Some (example_spreadsheet legacy_ledger)) =
     (Some (example_spreadsheet
        \<lparr>head_row = final_columns,
         data_rows =
           [[Str ''2024-03-01'', Str ''Tea'', Num 1, Str ''Food'', Num 30, Str ''amy'']]\<rparr>),
      Written)"
  by (simp add: save_defs example_spreadsheet_def legacy_ledger_def final_columns_def
        col_owner_def col_date_def col_name_def col_quantity_def col_category_def
        col_amount_def ascii_strip_def ascii_space_def del: not_None_eq)

section \<open>Login\<close>

lemma match_user_stored:
  "match_user lower typed hashed users = Login True n \<Longrightarrow>
     \<exists>user \<in> set users. map_of user ''username'' = n \<and> lower (py_str n) = lower typed
        \<and> map_of user ''hashed_password'' = Some hashed"
  by (induction users) (auto split: if_splits)

text \<open>
  Claim C10. When \<^verbatim>\<open>check_login\<close> succeeds, the name it returns is the username field
  of a record of the Users worksheet, taken as stored; that record matches the typed name
  after lower-casing both, and its digest is the digest of the password. The password
  form then stores this name, not the typed one, as the session's user name, which is
  the name the pages receive as owner.
\<close>

theorem login_uses_stored_username:
  assumes "check_login lower hash_password typed password (Some sheet)
             = (conn', Login True correct_username)"
  shows "(\<exists>user \<in> set (users_records (get_users_worksheet sheet)).
            map_of user ''username'' = correct_username
            \<and> lower (py_str correct_username) = lower typed
            \<and> map_of user ''hashed_password'' = Some (hash_password password))
         \<and> (selected_user st = Some typed \<and> typed \<noteq> [] \<and> \<not> show_signup st \<longrightarrow>
              (\<exists>st'. password_form lower hash_password password (Some sheet) st
                        = (conn', st', LoggedIn)
                 \<and> logged_in st' \<and> session_username st' = correct_username
                 \<and> page_username st' = correct_username))"
proof -
  from assms have m: "match_user lower typed (hash_password password)
      (users_records (get_users_worksheet sheet)) = Login True correct_username"
    by (simp add: check_login_def Let_def)
  have "selected_user st = Some typed \<Longrightarrow> typed \<noteq> [] \<Longrightarrow> \<not> show_signup st \<Longrightarrow>
      password_form lower hash_password password (Some sheet) st =
        (conn', st\<lparr>logged_in := True, session_username := correct_username,
                    selected_user := None\<rparr>, LoggedIn)"
    using assms by (simp add: password_form_def)
  with match_user_stored [OF m] show ?thesis
    by (auto simp: page_username_def)
qed

lemmas users_defs =
  check_login_def get_users_worksheet_def row_values_1_def users_records_def records_of_def
  fill_gaps_def dict_zip_def users_header_def py_str_def

lemma ascii_lower_examples:
  "ascii_lower ''AMY'' = ''amy''" "ascii_lower ''Amy'' = ''amy''" "ascii_lower ''bob'' = ''bob''"
  by code_simp+

theorem login_uses_stored_username_witness:
  "check_login ascii_lower example_hash ''AMY'' ''pw'' (Some example_users)
     = (Some example_users, Login True (Some ''Amy''))
   \<and> password_form ascii_lower example_hash ''pw'' (Some example_users) (at_password_form ''AMY'')
     = (Some example_users,
        \<lparr> logged_in = True, selected_user = None, show_signup = False,
          session_username = Some ''Amy'' \<rparr>, LoggedIn)"
proof -
  have h: "check_login ascii_lower example_hash ''AMY'' ''pw'' (Some example_users)
     = (Some example_users, Login True (Some ''Amy''))"
    by (simp add: users_defs example_users_def ascii_lower_examples example_hash_def)
  have s: "selected_user (at_password_form ''AMY'') = Some ''AMY'' \<and> ''AMY'' \<noteq> []
      \<and> \<not> show_signup (at_password_form ''AMY'')"
    by (simp add: at_password_form_def)
  from login_uses_stored_username [OF h, of "at_password_form ''AMY''"] s
  obtain st' where st': "password_form ascii_lower example_hash ''pw'' (Some example_users)
        (at_password_form ''AMY'') = (Some example_users, st', LoggedIn)"
    by blast
  have "password_form ascii_lower example_hash ''pw'' (Some example_users)
        (at_password_form ''AMY'') = (Some example_users,
        \<lparr> logged_in = True, selected_user = None, show_signup = False,
          session_username = Some ''Amy'' \<rparr>, LoggedIn)"
    using st' h by (simp add: password_form_def at_password_form_def)
  with h show ?thesis by simp
qed

section \<open>Records of a well-formed sheet\<close>

lemma fold_max_ge: "m \<le> fold (\<lambda>r m. max (length r) m) rows m"
proof (induction rows arbitrary: m)
  case Nil
  then show ?case by simp
next
  case (Cons r rows)
  have "m \<le> max (length r) m" by simp
  also have "\<dots> \<le> fold (\<lambda>r m. max (length r) m) rows (max (length r) m)" by (rule Cons.IH)
  finally show ?case by simp
qed

lemma fold_max_rectangular:
  "\<forall>r \<in> set rows. length r = n \<Longrightarrow> fold (\<lambda>r m. max (length r) m) rows n = n"
  by (induction rows) auto

lemma records_of_rectangular:
  assumes "\<forall>r \<in> set rows. length r = length keys"
  shows "records_of blank keys rows = map (dict_zip keys) rows"
  using assms by (simp add: records_of_def fold_max_rectangular fill_gaps_def)

lemma fold_update_fresh:
  "distinct (map fst kvs) \<Longrightarrow> fst ` set kvs \<inter> fst ` set d = {} \<Longrightarrow>
     fold (\<lambda>kv d. AList.update (fst kv) (snd kv) d) kvs d = d @ kvs"
proof (induction kvs arbitrary: d)
  case Nil
  then show ?case by simp
next
  case (Cons kv kvs)
  have fresh: "fst kv \<notin> fst ` set d" using Cons.prems(2) by auto
  then have upd: "AList.update (fst kv) (snd kv) d = d @ [kv]"
    by (induction d) auto
  have "fold (\<lambda>kv d. AList.update (fst kv) (snd kv) d) kvs (d @ [kv]) = (d @ [kv]) @ kvs"
    using Cons.prems by (intro Cons.IH) auto
  with upd show ?case by simp
qed

lemma dict_zip_distinct:
  assumes "distinct ks" and "length vs = length ks"
  shows "dict_zip ks vs = zip ks vs"
  using fold_update_fresh [of "zip ks vs" "[]"] assms by (simp add: dict_zip_def)

lemma ordered_union_absorb: "set ks \<subseteq> set acc \<Longrightarrow> ordered_union acc ks = acc"
  by (induction ks) auto

lemma ordered_union_distinct:
  "distinct ks \<Longrightarrow> set ks \<inter> set acc = {} \<Longrightarrow> ordered_union acc (ks @ rest) = ordered_union (acc @ ks) rest"
proof (induction ks arbitrary: acc)
  case Nil
  then show ?case by simp
next
  case (Cons k ks)
  have "ordered_union (acc @ [k]) (ks @ rest) = ordered_union ((acc @ [k]) @ ks) rest"
    using Cons.prems by (intro Cons.IH) auto
  with Cons.prems show ?case by simp
qed

lemma frame_columns_rectangular:
  assumes "distinct keys" and "rows \<noteq> []" and "\<forall>r \<in> set rows. length r = length keys"
  shows "frame_columns (map (zip keys) rows) = keys"
proof -
  obtain r rest where rows: "rows = r # rest" using assms(2) by (cases rows) auto
  have fst_zip: "\<And>x. x \<in> set rows \<Longrightarrow> map fst (zip keys x) = keys"
    using assms(3) by simp
  have "concat (map (map fst) (map (zip keys) rows)) = keys @ concat (map (\<lambda>x. keys) rest)"
    using fst_zip by (simp add: rows comp_def cong: map_cong)
  moreover have "ordered_union [] (keys @ concat (map (\<lambda>x. keys) rest)) =
      ordered_union keys (concat (map (\<lambda>x. keys) rest))"
    using ordered_union_distinct [OF assms(1), of "[]"] by simp
  moreover have "ordered_union keys (concat (map (\<lambda>x. keys) rest)) = keys"
    by (rule ordered_union_absorb) auto
  ultimately show ?thesis by (simp add: frame_columns_def)
qed

lemma get_cell_zip:
  assumes "distinct keys" and "length r = length keys"
  shows "map (get_cell (zip keys r)) keys = r"
proof (rule nth_equalityI)
  show "length (map (get_cell (zip keys r)) keys) = length r" using assms by simp
next
  fix i assume "i < length (map (get_cell (zip keys r)) keys)"
  then have i: "i < length keys" by simp
  then have "map_of (zip keys r) (keys ! i) = Some (r ! i)"
    using assms by (simp add: map_of_zip_nth)
  with i show "map (get_cell (zip keys r)) keys ! i = r ! i"
    by (simp add: get_cell_def)
qed

lemma get_cell_differs:
  "get_cell d k \<noteq> Str u \<longleftrightarrow> map_of d k \<noteq> Some (Str u)"
  by (simp add: get_cell_def split: option.splits)

lemma get_all_records_rectangular:
  assumes "distinct (head_row ws)"
    and "\<forall>r \<in> set (data_rows ws). length r = length (head_row ws)"
  shows "get_all_records ws = map (zip (head_row ws)) (data_rows ws)"
proof -
  have "get_all_records ws = map (dict_zip (head_row ws)) (data_rows ws)"
    using assms(2) by (simp add: get_all_records_def records_of_rectangular)
  also have "\<dots> = map (zip (head_row ws)) (data_rows ws)"
    using assms by (intro map_cong refl dict_zip_distinct) auto
  finally show ?thesis .
qed

lemma rows_back:
  assumes "distinct keys" and "\<forall>r \<in> set rows. length r = length keys"
  shows "map (\<lambda>d. map (get_cell d) keys) (map (zip keys) rows) = rows"
proof -
  have "map (\<lambda>d. map (get_cell d) keys) (map (zip keys) rows) =
          map (\<lambda>r. map (get_cell (zip keys r)) keys) rows"
    by (simp add: comp_def)
  also have "\<dots> = map (\<lambda>r. r) rows"
    using assms by (intro map_cong refl get_cell_zip) auto
  finally show ?thesis by simp
qed

lemma map_of_fold_update:
  "map_of (fold (\<lambda>kv d. AList.update (fst kv) (snd kv) d) kvs d) k =
     (case map_of (rev kvs) k of None \<Rightarrow> map_of d k | Some v \<Rightarrow> Some v)"
  by (induction kvs arbitrary: d)
     (auto simp: update_conv' map_add_def split: option.splits)

lemma map_of_dict_zip_first:
  assumes "k \<notin> set ks"
  shows "map_of (dict_zip (k # ks) (v # vs)) k = Some v"
proof -
  have "map_of (rev (zip ks vs)) k = None"
    using assms by (auto simp: map_of_eq_None_iff dest: set_zip_leftD)
  then show ?thesis
    by (simp add: dict_zip_def map_of_fold_update map_add_def)
qed

lemma username_is_first_cell:
  "map (\<lambda>user. map_of user ''username'') (users_records (users_header # rows)) =
     map (\<lambda>r. Some (first_cell r)) rows"
proof -
  define w where "w = fold (\<lambda>r m. max (length r) m) rows (length users_header)"
  have "length users_header \<le> w" unfolding w_def by (rule fold_max_ge)
  then have w: "3 \<le> w" by (simp add: users_header_def)
  have keys: "fill_gaps w [] users_header =
      ''username'' # ([''hashed_password'', ''avatar_base64''] @ replicate (w - 3) [])"
    by (simp add: fill_gaps_def users_header_def)
  have vals: "\<exists>vs. fill_gaps w [] r = first_cell r # vs" for r :: "string list"
  proof (cases r)
    case Nil
    from w obtain n where "w = Suc n" by (cases w) auto
    with Nil show ?thesis by (simp add: fill_gaps_def first_cell_def)
  next
    case (Cons c cs)
    then show ?thesis by (simp add: fill_gaps_def first_cell_def)
  qed
  have "map_of (dict_zip (fill_gaps w [] users_header) (fill_gaps w [] r)) ''username'' =
      Some (first_cell r)" for r
  proof -
    from vals obtain vs where "fill_gaps w [] r = first_cell r # vs" by blast
    then show ?thesis
      unfolding keys by (simp add: map_of_dict_zip_first)
  qed
  then show ?thesis
    by (simp add: users_records_def records_of_def w_def [symmetric] Let_def comp_def)
qed

section \<open>Deleting a user\<close>

lemma find_row_none: "\<forall>r \<in> set grid. u \<notin> set r \<Longrightarrow> find_row u grid = None"
  by (induction grid) auto

lemma find_row_first:
  "\<forall>x \<in> set before. u \<notin> set x \<Longrightarrow> u \<in> set r \<Longrightarrow>
     find_row u (before @ r # after) = Some (length before)"
  by (induction before) auto

lemma delete_rows_middle: "delete_rows (length before) (before @ r # after) = before @ after"
  by (simp add: delete_rows_def)

lemma delete_rows_Suc: "delete_rows (Suc i) (h # grid) = h # delete_rows i grid"
  by (simp add: delete_rows_def)

text \<open>The ledger part of \<^verbatim>\<open>delete_user\<close> on a well-formed sheet.\<close>

lemma purge_ledger:
  fixes u :: string
  assumes d: "distinct (head_row ws)"
    and l: "\<forall>r \<in> set (data_rows ws). length r = length (head_row ws)"
    and rows: "data_rows ws \<noteq> []" and o: "col_owner \<in> set (head_row ws)"
  defines "kept \<equiv> filter (\<lambda>row. map_of (zip (head_row ws) row) col_owner \<noteq> Some (Str u))
                     (data_rows ws)"
  shows "get_all_records ws \<noteq> []"
    and "frame_columns (get_all_records ws) = head_row ws"
    and "filter (\<lambda>d. get_cell d col_owner \<noteq> Str u) (get_all_records ws)
           = map (zip (head_row ws)) kept"
    and "map ((\<lambda>d. map (get_cell d) (head_row ws)) \<circ> zip (head_row ws)) kept = kept"
proof -
  have recs: "get_all_records ws = map (zip (head_row ws)) (data_rows ws)"
    by (rule get_all_records_rectangular [OF d l])
  show "get_all_records ws \<noteq> []" using rows by (simp add: recs)
  show "frame_columns (get_all_records ws) = head_row ws"
    unfolding recs by (rule frame_columns_rectangular [OF d rows l])
  show "filter (\<lambda>d. get_cell d col_owner \<noteq> Str u) (get_all_records ws)
           = map (zip (head_row ws)) kept"
    by (simp add: recs kept_def filter_map comp_def get_cell_differs)
  have "\<forall>r \<in> set kept. length r = length (head_row ws)"
    using l by (simp add: kept_def)
  then have "map (\<lambda>d. map (get_cell d) (head_row ws)) (map (zip (head_row ws)) kept) = kept"
    by (rule rows_back [OF d])
  then show "map ((\<lambda>d. map (get_cell d) (head_row ws)) \<circ> zip (head_row ws)) kept = kept"
    by simp
qed

lemma no_owner_column:
  "col_owner \<notin> set (head_row ws) \<Longrightarrow>
     filter (\<lambda>row. map_of (zip (head_row ws) row) col_owner \<noteq> Some (Str u)) (data_rows ws)
       = data_rows ws"
proof -
  assume "col_owner \<notin> set (head_row ws)"
  then have "\<And>row :: cell list. map_of (zip (head_row ws) row) col_owner = None"
    by (auto simp: map_of_eq_None_iff dest: set_zip_leftD)
  then show ?thesis by simp
qed

text \<open>
  Where \<^verbatim>\<open>find\<close> can only meet the name in the user name column, \<^verbatim>\<open>delete_user\<close>
  does what its docstring says. Take a Users worksheet that has the program's header
  once \<^verbatim>\<open>get_users_worksheet\<close> has added the avatar column where it was missing, a
  non-empty name that occurs in the worksheet only as the user name of a row, and a
  ledger whose header has distinct names and whose rows are as wide as the header. If no
  row has the user name, \<^verbatim>\<open>delete_user\<close> reports that the user was not found; the
  rows of the Users worksheet and the ledger are unchanged, the header being the healed
  one. Otherwise the first row with the user name is removed from the Users worksheet,
  and the ledger keeps its header and exactly the rows whose owner cell is not the text of
  the name, in their order; the outcome is a success, except that a ledger with rows but
  without the owner column is left as it is and reported as an error.
\<close>

lemma delete_user_purges_owner:
  assumes users: "get_users_worksheet sheet = users_header # rows"
    and name: "u \<noteq> []" "u \<notin> set users_header"
    and cells: "\<forall>r \<in> set rows. u \<in> set r \<longrightarrow> first_cell r = u"
    and ledger: "\<forall>ws. daily_tab sheet = Some ws \<longrightarrow>
                   distinct (head_row ws)
                   \<and> (\<forall>r \<in> set (data_rows ws). length r = length (head_row ws))"
  shows "((\<forall>r \<in> set rows. first_cell r \<noteq> u) \<longrightarrow>
            delete_user u (Some sheet) =
              (Some \<lparr> users_tab = Some (users_header # rows), daily_tab = daily_tab sheet \<rparr>,
               UserNotFound))
         \<and> (rows = before @ r # after \<and> first_cell r = u
              \<and> (\<forall>x \<in> set before. first_cell x \<noteq> u) \<longrightarrow>
            delete_user u (Some sheet) =
              (Some \<lparr> users_tab = Some (users_header # before @ after),
                      daily_tab =
                        map_option
                          (\<lambda>ws. ws\<lparr>data_rows :=
                             filter (\<lambda>row. map_of (zip (head_row ws) row) col_owner
                                              \<noteq> Some (Str u)) (data_rows ws)\<rparr>)
                          (daily_tab sheet) \<rparr>,
               (case daily_tab sheet of
                  None \<Rightarrow> Deleted
                | Some ws \<Rightarrow>
                    if data_rows ws \<noteq> [] \<and> col_owner \<notin> set (head_row ws) then LedgerError
                    else Deleted)))"
proof (intro conjI impI)
  assume none: "\<forall>r \<in> set rows. first_cell r \<noteq> u"
  have "\<forall>r \<in> set (users_header # rows). u \<notin> set r"
    using name(2) cells none by auto
  then have "find_row u (users_header # rows) = None" by (rule find_row_none)
  then show "delete_user u (Some sheet) =
      (Some \<lparr> users_tab = Some (users_header # rows), daily_tab = daily_tab sheet \<rparr>,
       UserNotFound)"
    by (simp add: delete_user_def users)
next
  assume found: "rows = before @ r # after \<and> first_cell r = u
      \<and> (\<forall>x \<in> set before. first_cell x \<noteq> u)"
  have "r \<noteq> []" using found name(1) by (auto simp: first_cell_def)
  then have in_r: "u \<in> set r" using found by (cases r) (auto simp: first_cell_def)
  have not_before: "\<forall>x \<in> set before. u \<notin> set x" using found cells by auto
  have f: "find_row u rows = Some (length before)" "u \<notin> set users_header"
    using find_row_first [OF not_before in_r] found name(2) by simp_all
  have del: "delete_rows (Suc (length before)) (users_header # rows)
      = users_header # before @ after"
    using found by (simp add: delete_rows_Suc delete_rows_middle)
  let ?users = "Some (users_header # before @ after)"
  show "delete_user u (Some sheet) =
      (Some \<lparr> users_tab = ?users,
              daily_tab =
                map_option
                  (\<lambda>ws. ws\<lparr>data_rows :=
                     filter (\<lambda>row. map_of (zip (head_row ws) row) col_owner
                                      \<noteq> Some (Str u)) (data_rows ws)\<rparr>)
                  (daily_tab sheet) \<rparr>,
       (case daily_tab sheet of
          None \<Rightarrow> Deleted
        | Some ws \<Rightarrow>
            if data_rows ws \<noteq> [] \<and> col_owner \<notin> set (head_row ws) then LedgerError
            else Deleted))"
  proof (cases "daily_tab sheet")
    case None
    then show ?thesis by (simp add: delete_user_def users f del)
  next
    case (Some ws)
    have d: "distinct (head_row ws)"
      and l: "\<forall>r \<in> set (data_rows ws). length r = length (head_row ws)"
      using ledger Some by auto
    have recs: "get_all_records ws = map (zip (head_row ws)) (data_rows ws)"
      by (rule get_all_records_rectangular [OF d l])
    show ?thesis
    proof (cases "data_rows ws = []")
      case True
      then show ?thesis by (simp add: delete_user_def users f del Some recs)
    next
      case False
      show ?thesis
      proof (cases "col_owner \<in> set (head_row ws)")
        case True
        note p = purge_ledger [OF d l False True]
        show ?thesis
          using False True
          by (simp add: delete_user_def users f del Some p Let_def)
      next
        case no: False
        have cols: "frame_columns (map (zip (head_row ws)) (data_rows ws)) = head_row ws"
          by (rule frame_columns_rectangular [OF d False l])
        show ?thesis
          using False no
          by (simp add: delete_user_def users f del Some cols no_owner_column recs Let_def)
      qed
    qed
  qed
qed

lemma delete_user_purges_owner_example:
  "delete_user ''Amy'' (Some (example_users\<lparr>daily_tab := Some example_ledger\<rparr>)) =
     (Some \<lparr> users_tab = Some [users_header, [''bob'', ''#dcba'', '''']],
             daily_tab = Some
               \<lparr> head_row = final_columns,
                 data_rows =
                   [[Str ''2024-03-01'', Str ''Milk'', Num 2, Str ''Food'', Num 80, Str ''amy''],
                    [Str ''2024-03-01'', Str ''Milk'', Num 2, Str ''Dairy'', Num 80, Str ''amy''],
                    [Str ''2024-04-15'', Str ''Tea'', Num 1, Str ''Food'', Num 30, Str ''amy'']] \<rparr> \<rparr>,
      Deleted)
   \<and> delete_user ''Amy''
       (Some \<lparr> users_tab = Some [users_header, [''bob'', ''#dcba'', '''']],
               daily_tab = Some example_ledger \<rparr>) =
     (Some \<lparr> users_tab = Some [users_header, [''bob'', ''#dcba'', '''']],
             daily_tab = Some example_ledger \<rparr>, UserNotFound)"
proof -
  let ?sheet = "example_users\<lparr>daily_tab := Some example_ledger\<rparr>"
  let ?after = "\<lparr> users_tab = Some [users_header, [''bob'', ''#dcba'', '''']],
               daily_tab = Some example_ledger \<rparr>"
  have wf: "distinct (head_row example_ledger)
      \<and> (\<forall>r \<in> set (data_rows example_ledger). length r = length (head_row example_ledger))"
    by (simp add: example_ledger_def column_defs)
  have u1: "get_users_worksheet ?sheet = users_header # [[''Amy'', ''#wp'', ''''], [''bob'', ''#dcba'', '''']]"
    by (simp add: get_users_worksheet_def row_values_1_def example_users_def users_header_def)
  have u2: "get_users_worksheet ?after = users_header # [[''bob'', ''#dcba'', '''']]"
    by (simp add: get_users_worksheet_def row_values_1_def users_header_def)
  have n: "''Amy'' \<noteq> []" "''Amy'' \<notin> set users_header"
    by (simp_all add: users_header_def)
  have c1: "\<forall>r \<in> set [[''Amy'', ''#wp'', ''''], [''bob'', ''#dcba'', '''']].
      ''Amy'' \<in> set r \<longrightarrow> first_cell r = ''Amy''"
    by (simp add: first_cell_def)
  have c2: "\<forall>r \<in> set [[''bob'', ''#dcba'', '''']]. ''Amy'' \<in> set r \<longrightarrow> first_cell r = ''Amy''"
    by (simp add: first_cell_def)
  have l1: "\<forall>ws. daily_tab ?sheet = Some ws \<longrightarrow> distinct (head_row ws)
      \<and> (\<forall>r \<in> set (data_rows ws). length r = length (head_row ws))"
    using wf by simp
  have l2: "\<forall>ws. daily_tab ?after = Some ws \<longrightarrow> distinct (head_row ws)
      \<and> (\<forall>r \<in> set (data_rows ws). length r = length (head_row ws))"
    using wf by simp
  have first: "delete_user ''Amy'' (Some ?sheet) =
     (Some \<lparr> users_tab = Some [users_header, [''bob'', ''#dcba'', '''']],
             daily_tab = Some
               \<lparr> head_row = final_columns,
                 data_rows =
                   [[Str ''2024-03-01'', Str ''Milk'', Num 2, Str ''Food'', Num 80, Str ''amy''],
                    [Str ''2024-03-01'', Str ''Milk'', Num 2, Str ''Dairy'', Num 80, Str ''amy''],
                    [Str ''2024-04-15'', Str ''Tea'', Num 1, Str ''Food'', Num 30, Str ''amy'']] \<rparr> \<rparr>,
      Deleted)"
    using delete_user_purges_owner [OF u1 n c1 l1, of "[]" "[''Amy'', ''#wp'', '''']"
        "[[''bob'', ''#dcba'', '''']]"]
    by (simp add: first_cell_def example_ledger_def column_defs)
  have second: "delete_user ''Amy'' (Some ?after) = (Some ?after, UserNotFound)"
    using delete_user_purges_owner [OF u2 n c2 l2]
    by (simp add: first_cell_def)
  from first second show ?thesis by simp
qed

text \<open>
  Claim C2. The claim has \<^verbatim>\<open>delete_user\<close> remove the credential row of the user.
  \<^verbatim>\<open>find\<close> looks at every cell of the worksheet, the header's too, so for the account
  named like the first header cell it is the header row that is removed: the credential
  row of the account stays, the row of another account becomes the header, the ledger
  rows of the account are removed all the same, and the outcome is a success.
\<close>

theorem delete_user_removes_header_row:
  "delete_user ''username''
     (Some \<lparr> users_tab = Some header_named_users, daily_tab = Some two_owner_ledger \<rparr>) =
     (Some \<lparr> users_tab = Some [[''alice'', ''#1'', []], [''username'', ''#2'', []]],
             daily_tab = Some
               \<lparr> head_row = final_columns,
                 data_rows =
                   [[Str ''2024-03-01'', Str ''Bread'', Num 1, Str ''Food'', Num 45,
                     Str ''alice'']] \<rparr> \<rparr>,
      Deleted)"
  by (simp add: delete_user_def get_users_worksheet_def row_values_1_def users_header_def
        delete_rows_def header_named_users_def two_owner_ledger_def get_all_records_def
        records_of_def fill_gaps_def dict_zip_def frame_columns_def get_cell_def column_defs)

end
